theory Spec2Isabelle
  imports Complex_Main "HOL-Library.Sublist"
begin

text \<open>
  The agent executor of ChatLab: the loop that alternates between calls of a language
  model and calls of tools (\<^verbatim>\<open>execute\<close>, \<^verbatim>\<open>executeStream\<close>), the parsers for thinking
  spans and for tool calls embedded in text, the semantic retrieval pipeline, and the
  accounting of token usage. The functions below follow the source function by function;
  line numbers are those of the source file of the agent.
\<close>

section \<open>Texts\<close>

text \<open>
  A JavaScript string is a sequence of code units; it is modelled as a HOL \<open>string\<close>,
  whose characters are the code units below 256 (ASCII and the Latin-1 supplement).
  The markers the agent looks for (\<^verbatim>\<open><think>\<close>, \<^verbatim>\<open><tool_call>\<close>) are ASCII; without
  the \<^verbatim>\<open>u\<close> flag a case-insensitive regular expression over an ASCII pattern matches
  ASCII letters only, and lower-casing a code unit below 256 gives one code unit, which
  is ASCII only if the original is. The fixed Chinese texts of the source are not
  written out: they are fields of the record \<open>world\<close> below.
\<close>

text \<open>
  The upper-case letters below 256 and their lower-case forms: \<open>A\<close> to \<open>Z\<close>, and the
  code units \<open>0xC0\<close> to \<open>0xDE\<close> without the multiplication sign \<open>0xD7\<close>.
\<close>

definition upperCaseLetters :: string where
  "upperCaseLetters =
     ''ABCDEFGHIJKLMNOPQRSTUVWXYZ''
     @ [CHR 0xC0, CHR 0xC1, CHR 0xC2, CHR 0xC3, CHR 0xC4, CHR 0xC5, CHR 0xC6, CHR 0xC7,
        CHR 0xC8, CHR 0xC9, CHR 0xCA, CHR 0xCB, CHR 0xCC, CHR 0xCD, CHR 0xCE, CHR 0xCF,
        CHR 0xD0, CHR 0xD1, CHR 0xD2, CHR 0xD3, CHR 0xD4, CHR 0xD5, CHR 0xD6,
        CHR 0xD8, CHR 0xD9, CHR 0xDA, CHR 0xDB, CHR 0xDC, CHR 0xDD, CHR 0xDE]"

definition lowerCaseLetters :: string where
  "lowerCaseLetters =
     ''abcdefghijklmnopqrstuvwxyz''
     @ [CHR 0xE0, CHR 0xE1, CHR 0xE2, CHR 0xE3, CHR 0xE4, CHR 0xE5, CHR 0xE6, CHR 0xE7,
        CHR 0xE8, CHR 0xE9, CHR 0xEA, CHR 0xEB, CHR 0xEC, CHR 0xED, CHR 0xEE, CHR 0xEF,
        CHR 0xF0, CHR 0xF1, CHR 0xF2, CHR 0xF3, CHR 0xF4, CHR 0xF5, CHR 0xF6,
        CHR 0xF8, CHR 0xF9, CHR 0xFA, CHR 0xFB, CHR 0xFC, CHR 0xFD, CHR 0xFE]"

definition toLowerChar :: "char \<Rightarrow> char" where
  "toLowerChar c =
     (case map_of (zip upperCaseLetters lowerCaseLetters) c of
        Some d \<Rightarrow> d
      | None \<Rightarrow> c)"

text \<open>\<^verbatim>\<open>s.toLowerCase()\<close>\<close>

definition toLowerCase :: "string \<Rightarrow> string" where
  "toLowerCase s = map toLowerChar s"

text \<open>
  White space as \<^verbatim>\<open>\s\<close> and \<^verbatim>\<open>trim()\<close> see it, among the code units below 256: tab,
  LF, VT, FF, CR, space and the no-break space \<open>0xA0\<close>.
\<close>

definition isWhiteSpace :: "char \<Rightarrow> bool" where
  "isWhiteSpace c =
     (c \<in> set [CHR 0x09, CHR 0x0A, CHR 0x0B, CHR 0x0C, CHR 0x0D, CHR 0x20, CHR 0xA0])"

definition trim :: "string \<Rightarrow> string" where
  "trim s = rev (dropWhile isWhiteSpace (rev (dropWhile isWhiteSpace s)))"

text \<open>The position of the first occurrence of \<open>needle\<close>, if there is one.\<close>

fun findSub :: "string \<Rightarrow> string \<Rightarrow> nat option" where
  "findSub needle [] = (if needle = [] then Some 0 else None)"
| "findSub needle (c # cs) =
     (if prefix needle (c # cs) then Some 0 else map_option Suc (findSub needle cs))"

text \<open>\<^verbatim>\<open>s.indexOf(needle)\<close>: \<open>-1\<close> when the needle does not occur.\<close>

definition indexOf :: "string \<Rightarrow> string \<Rightarrow> int" where
  "indexOf s needle = (case findSub needle s of None \<Rightarrow> -1 | Some i \<Rightarrow> int i)"

text \<open>\<^verbatim>\<open>s.includes(needle)\<close>\<close>

definition includes_str :: "string \<Rightarrow> string \<Rightarrow> bool" where
  "includes_str s needle = (findSub needle s \<noteq> None)"

text \<open>
  \<^verbatim>\<open>/tag/i.test(s)\<close> for a lower-case ASCII literal \<open>tag\<close>: the regular expressions
  carry no \<^verbatim>\<open>g\<close> flag here, so the test has no state.
\<close>

definition testI :: "string \<Rightarrow> string \<Rightarrow> bool" where
  "testI tag s = (findSub tag (toLowerCase s) \<noteq> None)"

text \<open>\<^verbatim>\<open>s.slice(a, b)\<close> and \<^verbatim>\<open>s.slice(a)\<close>, negative indices counting from the end.\<close>

definition slice :: "string \<Rightarrow> int \<Rightarrow> int \<Rightarrow> string" where
  "slice s a b =
     (let n = int (length s);
          from = (if a < 0 then max (n + a) 0 else min a n);
          to = (if b < 0 then max (n + b) 0 else min b n)
      in take (nat (to - from)) (drop (nat from) s))"

definition sliceFrom :: "string \<Rightarrow> int \<Rightarrow> string" where
  "sliceFrom s a = slice s a (int (length s))"

text \<open>
  \<^verbatim>\<open>s.replace(needle, '')\<close> with a string pattern: the first occurrence only.
\<close>

definition removeFirst :: "string \<Rightarrow> string \<Rightarrow> string" where
  "removeFirst s needle =
     (case findSub needle s of
        None \<Rightarrow> s
      | Some i \<Rightarrow> take i s @ drop (i + length needle) s)"

text \<open>
  Scanning a text for the matches of \<^verbatim>\<open>/OPEN([\s\S]*?)CLOSE/gi\<close>, where \<open>opn\<close> and
  \<open>cls\<close> are the non-empty lower-case literals. The scanner tries every start position
  from the left, as the engine does: a match starts where \<open>opn\<close> stands and \<open>cls\<close>
  occurs somewhere behind it, and it ends with the first such \<open>cls\<close> (the group is
  lazy). The result lists, in order, the matches (\<open>Inl\<close>: the whole match and the group)
  and the characters outside every match (\<open>Inr\<close>). The counter says how many characters
  of a match are still to be skipped.
\<close>

fun scanSpans :: "string \<Rightarrow> string \<Rightarrow> nat \<Rightarrow> string \<Rightarrow> ((string \<times> string) + char) list" where
  "scanSpans opn cls n [] = []"
| "scanSpans opn cls (Suc n) (c # cs) = scanSpans opn cls n cs"
| "scanSpans opn cls 0 (c # cs) =
     (if toLowerCase (take (length opn) (c # cs)) = opn then
        (case findSub cls (toLowerCase (drop (length opn) (c # cs))) of
           None \<Rightarrow> Inr c # scanSpans opn cls 0 cs
         | Some k \<Rightarrow>
             Inl (take (length opn + k + length cls) (c # cs), take k (drop (length opn) (c # cs)))
               # scanSpans opn cls (length opn + k + length cls - 1) cs)
      else Inr c # scanSpans opn cls 0 cs)"

text \<open>\<^verbatim>\<open>s.matchAll(re)\<close>: the pairs (\<^verbatim>\<open>match[0]\<close>, the text between the markers).\<close>

definition matchAllSpans :: "string \<Rightarrow> string \<Rightarrow> string \<Rightarrow> (string \<times> string) list" where
  "matchAllSpans opn cls s = [m. Inl m \<leftarrow> scanSpans opn cls 0 s]"

text \<open>\<^verbatim>\<open>s.replace(re, '')\<close> with the \<^verbatim>\<open>g\<close> flag: every match removed.\<close>

definition removeAllSpans :: "string \<Rightarrow> string \<Rightarrow> string \<Rightarrow> string" where
  "removeAllSpans opn cls s = [c. Inr c \<leftarrow> scanSpans opn cls 0 s]"

section \<open>The fallback parsers\<close>

text \<open>
  \<^verbatim>\<open>extractThinkingContent\<close>: the matches are taken on the original text; each whole
  match is then removed from the running \<open>cleanContent\<close> by a string replace (its first
  occurrence). The result is the pair (\<open>thinking\<close>, \<open>cleanContent\<close>).
\<close>

definition extractThinkingContent :: "string \<Rightarrow> string \<times> string" where
  "extractThinkingContent txt =
     (let ms = matchAllSpans ''<think>'' ''</think>'' txt;
          thinking = concat (map (\<lambda>m. trim (snd m) @ [CHR 0x0A]) ms);
          cleanContent = foldl (\<lambda>acc m. removeFirst acc (fst m)) txt ms
      in (trim thinking, trim cleanContent))"

definition cleanContentOf :: "string \<Rightarrow> string" where
  "cleanContentOf txt = snd (extractThinkingContent txt)"

text \<open>\<^verbatim>\<open>hasToolCallTags\<close>\<close>

definition hasToolCallTags :: "string \<Rightarrow> bool" where
  "hasToolCallTags txt = testI ''<tool_call>'' txt"

section \<open>Data model\<close>

text \<open>
  JavaScript values as \<^verbatim>\<open>JSON.parse\<close> and the tool runtime produce them. Numbers are
  rationals: \<^verbatim>\<open>NaN\<close> and the infinities are not modelled.
\<close>

datatype jsval =
    JUndefined
  | JNull
  | JBool bool
  | JNum rat
  | JStr string
  | JArr "jsval list"
  | JObj "(string \<times> jsval) list"

text \<open>The truth value JavaScript gives a value in a condition.\<close>

fun truthy :: "jsval \<Rightarrow> bool" where
  "truthy JUndefined = False"
| "truthy JNull = False"
| "truthy (JBool b) = b"
| "truthy (JNum n) = (n \<noteq> 0)"
| "truthy (JStr s) = (s \<noteq> [])"
| "truthy (JArr xs) = True"
| "truthy (JObj kvs) = True"

text \<open>
  \<^verbatim>\<open>v.key\<close> for the keys the agent reads (\<^verbatim>\<open>name\<close>, \<^verbatim>\<open>arguments\<close>, \<^verbatim>\<open>query\<close>,
  \<^verbatim>\<open>top_k\<close>, \<^verbatim>\<open>candidate_limit\<close>, \<^verbatim>\<open>results\<close>, \<^verbatim>\<open>score\<close>, \<^verbatim>\<open>message\<close>): a
  \<^verbatim>\<open>TypeError\<close> (\<open>None\<close>) on \<^verbatim>\<open>null\<close> and \<^verbatim>\<open>undefined\<close>, \<^verbatim>\<open>undefined\<close> on a
  value that has no such property. The keys of an object are taken to be distinct, as
  \<^verbatim>\<open>JSON.parse\<close> leaves them.
\<close>

definition getProp :: "jsval \<Rightarrow> string \<Rightarrow> jsval option" where
  "getProp v k =
     (case v of
        JUndefined \<Rightarrow> None
      | JNull \<Rightarrow> None
      | JObj kvs \<Rightarrow> Some (case map_of kvs k of None \<Rightarrow> JUndefined | Some x \<Rightarrow> x)
      | _ \<Rightarrow> Some JUndefined)"

text \<open>A tool call \<^verbatim>\<open>{id, type: 'function', function: {name, arguments}}\<close>.\<close>

record ToolCall =
  tc_id :: string
  fn_name :: string
  fn_arguments :: string

record TokenUsage =
  promptTokens :: int
  completionTokens :: int
  totalTokens :: int

datatype role = System | User | Assistant | Tool

record ChatMessage =
  role :: role
  content :: string
  tool_calls :: "ToolCall list option"
  tool_call_id :: "string option"

text \<open>What the blocking model transport returns.\<close>

record ChatResponse =
  resp_content :: string
  resp_tool_calls :: "ToolCall list option"
  finishReason :: string
  usage :: "TokenUsage option"

text \<open>One delta of the streaming model transport.\<close>

record StreamChunk =
  chunk_content :: "string option"
  chunk_tool_calls :: "ToolCall list option"
  chunk_usage :: "TokenUsage option"
  isFinished :: bool
  chunk_finishReason :: string

text \<open>One result of the tool runtime.\<close>

record ToolResult =
  success :: bool
  result :: jsval
  error :: string

text \<open>
  \<^verbatim>\<open>AgentStreamChunk\<close>, what the consumer's callback receives. The parameters of a
  \<^verbatim>\<open>tool_start\<close> chunk are not modelled.
\<close>

datatype AgentStreamChunk =
    ContentChunk string
  | ToolStartChunk string
  | ToolResultChunk string jsval
  | DoneChunk TokenUsage
  | ErrorChunk string

record AgentResult =
  res_content :: string
  res_toolsUsed :: "string list"
  res_toolRounds :: int
  res_totalUsage :: TokenUsage

text \<open>Exceptions as values.\<close>

datatype exn = TransportError string | TypeError

text \<open>
  What an execution does to the outside, in order. The number is the logical time at
  which the call is issued (see \<open>clock\<close> below).
\<close>

datatype event =
    ModelCall nat "ChatMessage list" bool
  | ToolDispatch nat "ToolCall list"
  | AbortObserved nat
  | Emit AgentStreamChunk

text \<open>The fixed Chinese texts of the source, by the place they stand in.\<close>

datatype literal =
    RewriteSystem
  | RewriteUserHead
  | RewriteUserTail
  | ErrorPrefix
  | EvidenceHead
  | EvidenceTopK
  | EvidenceLimit
  | EvidenceResults
  | EvidenceRules
  | AutoHead
  | AutoFoot
  | FinalInstruction

text \<open>
  The collaborators of the agent, which are not part of it: the model transport, the
  tool catalog and runtime, the active configuration, the cancellation signal, the
  built-in functions of the language whose results are texts, and the tool context.

  Time is logical: \<open>clock\<close> counts the suspension points (\<^verbatim>\<open>await\<close>) an agent has
  passed. A collaborator's answer is a function of the time of the call and of its
  arguments, so any sequence of answers is a \<open>world\<close>. The cancellation signal is
  \<open>abortAt\<close>: with \<open>Some k\<close> the signal is raised once \<open>k\<close> suspension points have
  passed (between two suspension points nothing else runs), and it stays raised.
  The model transport may throw; the catalog and the tool runtime are taken not to, as
  their contract says.
  \<open>randomUUID t i\<close> is the \<open>i\<close>-th identifier drawn at time \<open>t\<close>.
\<close>

record world =
  systemPrompt :: string
  getAllToolDefinitions :: "nat \<Rightarrow> string list"
  getActiveConfig :: "nat \<Rightarrow> exn + string option"
  chat :: "nat \<Rightarrow> ChatMessage list \<Rightarrow> exn + ChatResponse"
  chatStream :: "nat \<Rightarrow> ChatMessage list \<Rightarrow> (exn + StreamChunk) list"
  executeToolCalls :: "nat \<Rightarrow> ToolCall list \<Rightarrow> ToolResult list"
  randomUUID :: "nat \<Rightarrow> nat \<Rightarrow> string"
  abortAt :: "nat option"
  maxMessagesLimit :: "rat option"
  JSON_parse :: "string \<Rightarrow> jsval option"
  JSON_stringify :: "jsval \<Rightarrow> string"
  JSON_stringify2 :: "jsval \<Rightarrow> string"
  toStr :: "jsval \<Rightarrow> string"
  toFixed1 :: "rat \<Rightarrow> string"
  lit :: "literal \<Rightarrow> string"
  triggers :: "string list"

text \<open>
  The fields of \<^verbatim>\<open>class Agent\<close>, and two that are not in the source: the logical
  time and the log of events.
\<close>

record Agent =
  maxToolRounds :: rat
  historyMessages :: "ChatMessage list"
  messages :: "ChatMessage list"
  toolsUsed :: "string list"
  toolRounds :: int
  totalUsage :: TokenUsage
  clock :: nat
  trace :: "event list"

definition zeroUsage :: TokenUsage where
  "zeroUsage = \<lparr>promptTokens = 0, completionTokens = 0, totalTokens = 0\<rparr>"

text \<open>
  The constructor: the round budget is whatever number the caller configures (line 341,
  \<^verbatim>\<open>config.maxToolRounds ?? 5\<close>), and 5 when none is given. Nothing checks that it is
  an integer or that it is not negative. As for the other numbers, \<^verbatim>\<open>NaN\<close> and the
  infinities are not modelled.
\<close>

definition newAgent :: "rat option \<Rightarrow> ChatMessage list \<Rightarrow> Agent" where
  "newAgent budget history =
     \<lparr>maxToolRounds = (case budget of None \<Rightarrow> 5 | Some n \<Rightarrow> n),
      historyMessages = history,
      messages = [],
      toolsUsed = [],
      toolRounds = 0,
      totalUsage = zeroUsage,
      clock = 0,
      trace = []\<rparr>"

definition tick :: "Agent \<Rightarrow> Agent" where
  "tick s = s\<lparr>clock := Suc (clock s)\<rparr>"

definition logEv :: "event \<Rightarrow> Agent \<Rightarrow> Agent" where
  "logEv e s = s\<lparr>trace := trace s @ [e]\<rparr>"

text \<open>\<^verbatim>\<open>if (onChunk) onChunk(c)\<close>: \<open>st\<close> says whether there is a consumer.\<close>

definition emit :: "bool \<Rightarrow> AgentStreamChunk \<Rightarrow> Agent \<Rightarrow> Agent" where
  "emit st c s = (if st then logEv (Emit c) s else s)"

definition pushMessage :: "ChatMessage \<Rightarrow> Agent \<Rightarrow> Agent" where
  "pushMessage m s = s\<lparr>messages := messages s @ [m]\<rparr>"

definition isAborted :: "world \<Rightarrow> Agent \<Rightarrow> bool" where
  "isAborted w s = (case abortAt w of None \<Rightarrow> False | Some k \<Rightarrow> k \<le> clock s)"

definition addUsage :: "TokenUsage option \<Rightarrow> Agent \<Rightarrow> Agent" where
  "addUsage u s =
     (case u of
        None \<Rightarrow> s
      | Some x \<Rightarrow>
          s\<lparr>totalUsage :=
              \<lparr>promptTokens = promptTokens (totalUsage s) + promptTokens x,
               completionTokens = completionTokens (totalUsage s) + completionTokens x,
               totalTokens = totalTokens (totalUsage s) + totalTokens x\<rparr>\<rparr>)"

definition systemMessage :: "string \<Rightarrow> ChatMessage" where
  "systemMessage c = \<lparr>role = System, content = c, tool_calls = None, tool_call_id = None\<rparr>"

definition userMessageOf :: "string \<Rightarrow> ChatMessage" where
  "userMessageOf c = \<lparr>role = User, content = c, tool_calls = None, tool_call_id = None\<rparr>"

definition assistantMessage :: "ToolCall list \<Rightarrow> ChatMessage" where
  "assistantMessage calls =
     \<lparr>role = Assistant, content = [], tool_calls = Some calls, tool_call_id = None\<rparr>"

definition toolMessage :: "string \<Rightarrow> string \<Rightarrow> ChatMessage" where
  "toolMessage c i = \<lparr>role = Tool, content = c, tool_calls = None, tool_call_id = Some i\<rparr>"

text \<open>
  \<^verbatim>\<open>parseToolCallTags\<close>. One block of markup yields the name and the arguments of a
  call, or nothing: when \<^verbatim>\<open>JSON.parse\<close> throws, when reading a property throws, or when
  \<^verbatim>\<open>name\<close> or \<^verbatim>\<open>arguments\<close> is falsy. The group of the regular expression is the
  text between the markers without the white space around it, and the source trims it
  again. A name that is not a string is carried as its text.
\<close>

definition toolCallOfBlock :: "world \<Rightarrow> string \<Rightarrow> (string \<times> string) option" where
  "toolCallOfBlock w inner =
     (case JSON_parse w (trim inner) of
        None \<Rightarrow> None
      | Some parsed \<Rightarrow>
          (case getProp parsed ''name'' of
             None \<Rightarrow> None
           | Some nm \<Rightarrow>
               (case getProp parsed ''arguments'' of
                  None \<Rightarrow> None
                | Some ar \<Rightarrow>
                    if truthy nm \<and> truthy ar then
                      Some ((case nm of JStr n \<Rightarrow> n | _ \<Rightarrow> toStr w nm),
                            (case ar of JStr a \<Rightarrow> a | _ \<Rightarrow> JSON_stringify w ar))
                    else None)))"

text \<open>The blocks of tool-call markup in a text: what lies between the markers.\<close>

definition toolCallBlocks :: "string \<Rightarrow> string list" where
  "toolCallBlocks txt = map snd (matchAllSpans ''<tool_call>'' ''</tool_call>'' txt)"

text \<open>
  The calls get the identifiers \<^verbatim>\<open>fallback-<uuid>\<close>, drawn at time \<open>t\<close>. The
  result is \<^verbatim>\<open>null\<close> (\<open>None\<close>) when the list of calls is empty.
\<close>

definition parseToolCallTags :: "world \<Rightarrow> nat \<Rightarrow> string \<Rightarrow> ToolCall list option" where
  "parseToolCallTags w t txt =
     (let found = List.map_filter (toolCallOfBlock w) (toolCallBlocks txt);
          calls =
            map (\<lambda>(i, na). \<lparr>tc_id = ''fallback-'' @ randomUUID w t i,
                             fn_name = fst na, fn_arguments = snd na\<rparr>)
                (zip [0..<length found] found)
      in if length calls > 0 then Some calls else None)"

section \<open>The semantic retrieval pipeline\<close>

definition semanticTool :: string where
  "semanticTool = ''semantic_search_messages''"

text \<open>\<^verbatim>\<open>getEmbeddingModel\<close>\<close>

definition getEmbeddingModel :: "world \<Rightarrow> nat \<Rightarrow> string option" where
  "getEmbeddingModel w t =
     (case getActiveConfig w t of
        Inl e \<Rightarrow> None
      | Inr cfg \<Rightarrow>
          (case cfg of
             None \<Rightarrow> None
           | Some m \<Rightarrow> if trim m = [] then None else Some (trim m)))"

record plan =
  query :: string
  top_k :: rat
  candidate_limit :: rat

text \<open>\<^verbatim>\<open>raw.match(/\{[\s\S]*\}/)\<close>: from the first opening brace to the last closing one.\<close>

definition firstObject :: "string \<Rightarrow> string option" where
  "firstObject raw =
     (case findSub ''{'' raw of
        None \<Rightarrow> None
      | Some i \<Rightarrow>
          (case findSub ''}'' (rev (drop (Suc i) raw)) of
             None \<Rightarrow> None
           | Some j \<Rightarrow> Some (take (length raw - i - j) (drop i raw))))"

text \<open>
  The plan read from the reply of the rewriting call; whatever throws inside the
  \<^verbatim>\<open>try\<close> leaves the defaults.
\<close>

definition planOfReply :: "world \<Rightarrow> string \<Rightarrow> string \<Rightarrow> plan" where
  "planOfReply w um reply =
     (let dflt = \<lparr>query = um, top_k = 5, candidate_limit = 200\<rparr> in
      case firstObject (trim reply) of
        None \<Rightarrow> dflt
      | Some js \<Rightarrow>
          (case JSON_parse w js of
             None \<Rightarrow> dflt
           | Some parsed \<Rightarrow>
               (case (getProp parsed ''query'', getProp parsed ''top_k'',
                      getProp parsed ''candidate_limit'') of
                  (Some q, Some k, Some c) \<Rightarrow>
                    \<lparr>query = (case q of JStr x \<Rightarrow> if trim x \<noteq> [] then trim x else um | _ \<Rightarrow> um),
                     top_k = (case k of JNum n \<Rightarrow> n | _ \<Rightarrow> 5),
                     candidate_limit = (case c of JNum n \<Rightarrow> n | _ \<Rightarrow> 200)\<rparr>
                | _ \<Rightarrow> dflt)))"

definition clampPlan :: "world \<Rightarrow> plan \<Rightarrow> plan" where
  "clampPlan w p =
     (let k = max 1 (min 50 (top_k p));
          c = max 20 (min 500 (candidate_limit p));
          c' = (case maxMessagesLimit w of
                  None \<Rightarrow> c
                | Some l \<Rightarrow> if l \<noteq> 0 then min c l else c)
      in p\<lparr>top_k := k, candidate_limit := c'\<rparr>)"

definition rewriteMessages :: "world \<Rightarrow> string \<Rightarrow> ChatMessage list" where
  "rewriteMessages w um =
     [systemMessage (lit w RewriteSystem),
      userMessageOf (lit w RewriteUserHead @ um @ [CHR 0x0A] @ lit w RewriteUserTail)]"

text \<open>
  Step 1 of \<^verbatim>\<open>runSemanticPipeline\<close>: the rewriting call, which carries no tools and is
  not added to the transcript, and the clamping of the plan. A call that throws is
  absorbed.
\<close>

definition rewriteQuery :: "world \<Rightarrow> string \<Rightarrow> Agent \<Rightarrow> plan \<times> Agent" where
  "rewriteQuery w um s =
     (let s1 = tick (logEv (ModelCall (clock s) (rewriteMessages w um) False) s);
          dflt = \<lparr>query = um, top_k = 5, candidate_limit = 200\<rparr>
      in case chat w (clock s) (rewriteMessages w um) of
           Inl e \<Rightarrow> (clampPlan w dflt, s1)
         | Inr r \<Rightarrow> (clampPlan w (planOfReply w um (resp_content r)), addUsage (usage r) s1))"

definition forcedToolCall :: "world \<Rightarrow> plan \<Rightarrow> nat \<Rightarrow> ToolCall" where
  "forcedToolCall w p t =
     \<lparr>tc_id = ''semantic-'' @ randomUUID w t 0,
      fn_name = semanticTool,
      fn_arguments =
        JSON_stringify w
          (JObj [(''query'', JStr (query p)), (''top_k'', JNum (top_k p)),
                 (''candidate_limit'', JNum (candidate_limit p))])\<rparr>"

definition evidenceBlock :: "world \<Rightarrow> plan \<Rightarrow> jsval \<Rightarrow> string" where
  "evidenceBlock w p r =
     lit w EvidenceHead @ query p @ lit w EvidenceTopK @ toStr w (JNum (top_k p))
       @ lit w EvidenceLimit @ toStr w (JNum (candidate_limit p))
       @ lit w EvidenceResults @ JSON_stringify2 w r @ lit w EvidenceRules"

text \<open>\<^verbatim>\<open>xs.findIndex(P)\<close>: \<open>-1\<close> when no element satisfies \<open>P\<close>.\<close>

fun findIndex :: "('a \<Rightarrow> bool) \<Rightarrow> 'a list \<Rightarrow> int" where
  "findIndex P [] = -1"
| "findIndex P (x # xs) =
     (if P x then 0 else (let i = findIndex P xs in if i = -1 then -1 else i + 1))"

text \<open>\<^verbatim>\<open>xs.splice(i, 0, x)\<close>: a negative index counts from the end, a large one is the end.\<close>

definition splice0 :: "'a list \<Rightarrow> int \<Rightarrow> 'a \<Rightarrow> 'a list" where
  "splice0 xs i x =
     (let n = int (length xs);
          k = nat (if i < 0 then max (n + i) 0 else min i n)
      in take k xs @ x # drop k xs)"

text \<open>Lines 503 to 505: where the evidence goes.\<close>

definition insertBeforeLastUser :: "ChatMessage \<Rightarrow> ChatMessage list \<Rightarrow> ChatMessage list" where
  "insertBeforeLastUser m ms =
     (let lastUserIdx = findIndex (\<lambda>x. role x = User) (rev ms);
          insertIdx = (if lastUserIdx = -1 then int (length ms)
                       else int (length ms) - 1 - lastUserIdx)
      in splice0 ms insertIdx m)"

text \<open>The content of a \<^verbatim>\<open>tool\<close> message for a result (lines 483 and 944).\<close>

definition toolContent :: "world \<Rightarrow> ToolResult \<Rightarrow> string" where
  "toolContent w r =
     (if success r then JSON_stringify w (result r) else lit w ErrorPrefix @ error r)"

text \<open>\<^verbatim>\<open>results?.[0]\<close>\<close>

definition firstResult :: "ToolResult list \<Rightarrow> ToolResult option" where
  "firstResult rs = (case rs of [] \<Rightarrow> None | r # _ \<Rightarrow> Some r)"

text \<open>
  The forced call of an agent in state \<open>s\<close> and its result as the pipeline sees it
  (\<^verbatim>\<open>first\<close>): the call is made from the plan at the time the rewriting call returns.
\<close>

definition pipelineCall :: "world \<Rightarrow> string \<Rightarrow> Agent \<Rightarrow> ToolCall" where
  "pipelineCall w um s =
     forcedToolCall w (fst (rewriteQuery w um s)) (clock (snd (rewriteQuery w um s)))"

definition forcedResult :: "world \<Rightarrow> string \<Rightarrow> Agent \<Rightarrow> ToolResult option" where
  "forcedResult w um s =
     firstResult (executeToolCalls w (clock (snd (rewriteQuery w um s))) [pipelineCall w um s])"

text \<open>Lines 481 to 485: the \<^verbatim>\<open>tool\<close> message of the forced call.\<close>

definition forcedToolMessage :: "world \<Rightarrow> ToolResult option \<Rightarrow> ToolCall \<Rightarrow> ChatMessage" where
  "forcedToolMessage w first call =
     toolMessage
       (case first of
          None \<Rightarrow> lit w ErrorPrefix @ ''undefined''
        | Some r \<Rightarrow> toolContent w r)
       (tc_id call)"

text \<open>
  \<^verbatim>\<open>runSemanticPipeline\<close>: whether the pipeline ran, and the agent afterwards.
\<close>

definition runSemanticPipeline :: "world \<Rightarrow> string \<Rightarrow> string list \<Rightarrow> bool \<Rightarrow> Agent \<Rightarrow> bool \<times> Agent" where
  "runSemanticPipeline w um tools st s =
     (case getEmbeddingModel w (clock s) of
        None \<Rightarrow> (False, s)
      | Some m \<Rightarrow>
          (let p = fst (rewriteQuery w um s);
               s1 = snd (rewriteQuery w um s)
           in if semanticTool \<notin> set tools then (False, s1)
              else
                (let s2 = emit st (ToolStartChunk semanticTool) s1;
                     call = forcedToolCall w p (clock s2);
                     first = firstResult (executeToolCalls w (clock s2) [call]);
                     s3 = tick (logEv (ToolDispatch (clock s2) [call]) s2);
                     s4 = emit st
                            (ToolResultChunk semanticTool
                               (case first of
                                  None \<Rightarrow> JUndefined
                                | Some r \<Rightarrow> if success r then result r else JStr (error r)))
                            s3;
                     s5 = pushMessage (assistantMessage [call]) s4;
                     s6 = pushMessage (forcedToolMessage w first call) s5;
                     s7 = s6\<lparr>toolsUsed := toolsUsed s6 @ [semanticTool]\<rparr>
                 in case first of
                      None \<Rightarrow> (True, s7)
                    | Some r \<Rightarrow>
                        if success r \<and> truthy (result r) then
                          (True,
                           s7\<lparr>messages :=
                                insertBeforeLastUser (systemMessage (evidenceBlock w p (result r)))
                                  (messages s7)\<rparr>)
                        else (True, s7))))"

section \<open>The legacy automatic search\<close>

text \<open>
  \<^verbatim>\<open>shouldAutoSemanticSearch\<close>. The keywords of the source are Chinese: they are the
  field \<open>triggers\<close>.
\<close>

definition shouldAutoSemanticSearch :: "world \<Rightarrow> string \<Rightarrow> bool" where
  "shouldAutoSemanticSearch w um =
     (let t = trim um in
      if t = [] then False
      else if testI ''get_recent_messages'' t \<or> testI ''search_messages'' t
              \<or> testI ''get_conversation_between'' t \<or> testI ''semantic_search_messages'' t
        then False
      else if list_ex (includes_str t) (triggers w) then True
      else if 15 \<le> length t then True
      else False)"

text \<open>One line of the evidence; reading a property of \<^verbatim>\<open>null\<close> throws (\<open>None\<close>).\<close>

definition renderLine :: "world \<Rightarrow> nat \<times> jsval \<Rightarrow> string option" where
  "renderLine w ix =
     (case getProp (snd ix) ''score'' of
        None \<Rightarrow> None
      | Some sc \<Rightarrow>
          (let pct = (case sc of JNum n \<Rightarrow> toFixed1 w (n * 100) @ ''%'' | _ \<Rightarrow> []);
               msg = (case getProp (snd ix) ''message'' of
                        None \<Rightarrow> []
                      | Some m \<Rightarrow> if truthy m then toStr w m else [])
           in Some (trim (toStr w (JNum (of_nat (fst ix + 1))) @ ''. '' @ pct @ '' '' @ msg))))"

text \<open>\<^verbatim>\<open>data?.results || []\<close>, and \<open>None\<close> when that is not an array.\<close>

definition autoItems :: "jsval \<Rightarrow> jsval list option" where
  "autoItems d =
     (case getProp d ''results'' of
        None \<Rightarrow> Some []
      | Some v \<Rightarrow>
          if truthy v then (case v of JArr xs \<Rightarrow> Some xs | _ \<Rightarrow> None) else Some [])"

fun joinLines :: "string list \<Rightarrow> string" where
  "joinLines [] = []"
| "joinLines [x] = x"
| "joinLines (x # y # ys) = x @ [CHR 0x0A] @ joinLines (y # ys)"

text \<open>Lines 570 to 582: the evidence text made from the results of the call.\<close>

definition autoEvidence :: "world \<Rightarrow> string \<Rightarrow> ToolResult list \<Rightarrow> string option" where
  "autoEvidence w um rs =
     (case rs of
        [] \<Rightarrow> None
      | r0 # _ \<Rightarrow>
          if \<not> success r0 then None
          else
            (case autoItems (result r0) of
               None \<Rightarrow> None
             | Some items \<Rightarrow>
                 if items = [] then None
                 else
                   (case those (map (renderLine w) (enumerate 0 (take 8 items))) of
                      None \<Rightarrow> None
                    | Some ls \<Rightarrow>
                        Some (lit w AutoHead
                              @ (case getProp (result r0) ''query'' of
                                   None \<Rightarrow> um
                                 | Some q \<Rightarrow> if truthy q then toStr w q else um)
                              @ [CHR 0x0A] @ joinLines ls @ [CHR 0x0A] @ lit w AutoFoot))))"

text \<open>Lines 554 to 567: the call the legacy search dispatches.\<close>

definition autoToolCall :: "world \<Rightarrow> string \<Rightarrow> nat \<Rightarrow> ToolCall" where
  "autoToolCall w um t =
     \<lparr>tc_id = ''auto-'' @ randomUUID w t 0,
      fn_name = semanticTool,
      fn_arguments =
        JSON_stringify w
          (JObj [(''query'', JStr um), (''top_k'', JNum 8), (''candidate_limit'', JNum 200)])\<rparr>"

text \<open>
  \<^verbatim>\<open>runAutoSemanticSearch\<close>: the catalog is read again, one call is dispatched. The
  agent's fields are not touched; time passes.
\<close>

definition runAutoSemanticSearch :: "world \<Rightarrow> string \<Rightarrow> Agent \<Rightarrow> string option \<times> Agent" where
  "runAutoSemanticSearch w um s =
     (let tools = getAllToolDefinitions w (clock s);
          s1 = tick s
      in if semanticTool \<notin> set tools then (None, s1)
         else
           (let call = autoToolCall w um (clock s1);
                rs = executeToolCalls w (clock s1) [call];
                s2 = tick (logEv (ToolDispatch (clock s1) [call]) s1)
            in (autoEvidence w um rs, s2)))"

text \<open>Lines 613 to 619 of \<^verbatim>\<open>execute\<close>, and the same lines of \<^verbatim>\<open>executeStream\<close>.\<close>

definition autoSearchPhase :: "world \<Rightarrow> string \<Rightarrow> bool \<Rightarrow> Agent \<Rightarrow> Agent" where
  "autoSearchPhase w um ranPipeline s =
     (if \<not> ranPipeline \<and> shouldAutoSemanticSearch w um then
        (let ev = fst (runAutoSemanticSearch w um s);
             s1 = snd (runAutoSemanticSearch w um s)
         in case ev of
              None \<Rightarrow> s1
            | Some e \<Rightarrow>
                if e \<noteq> [] then
                  s1\<lparr>messages :=
                       splice0 (messages s1) (int (length (messages s1)) - 1) (systemMessage e)\<rparr>
                else s1)
      else s)"

section \<open>Tool dispatch\<close>

text \<open>
  The loop of \<^verbatim>\<open>handleToolCalls\<close> over the calls. \<^verbatim>\<open>results[i]\<close> is \<^verbatim>\<open>undefined\<close>
  when the runtime returned fewer results than calls; reading \<^verbatim>\<open>result.success\<close>
  then throws, after the name of the call has been recorded.
\<close>

fun handleResults :: "world \<Rightarrow> bool \<Rightarrow> ToolCall list \<Rightarrow> ToolResult list \<Rightarrow> Agent \<Rightarrow> exn option \<times> Agent" where
  "handleResults w st [] rs s = (None, s)"
| "handleResults w st (tc # tcs) rs s =
     (case rs of
        [] \<Rightarrow> (Some TypeError, s\<lparr>toolsUsed := toolsUsed s @ [fn_name tc]\<rparr>)
      | r # rs' \<Rightarrow>
          handleResults w st tcs rs'
            (pushMessage (toolMessage (toolContent w r) (tc_id tc))
               (emit st
                  (ToolResultChunk (fn_name tc) (if success r then result r else JStr (error r)))
                  (s\<lparr>toolsUsed := toolsUsed s @ [fn_name tc]\<rparr>))))"

text \<open>\<^verbatim>\<open>handleToolCalls\<close>\<close>

definition handleToolCalls :: "world \<Rightarrow> bool \<Rightarrow> ToolCall list \<Rightarrow> Agent \<Rightarrow> exn option \<times> Agent" where
  "handleToolCalls w st calls s =
     (let s1 = pushMessage (assistantMessage calls) s;
          rs = executeToolCalls w (clock s1) calls;
          s2 = tick (logEv (ToolDispatch (clock s1) calls) s1)
      in handleResults w st calls rs s2)"

section \<open>The blocking entry point\<close>

definition resultOf :: "string \<Rightarrow> Agent \<Rightarrow> AgentResult" where
  "resultOf c s =
     \<lparr>res_content = c, res_toolsUsed = toolsUsed s, res_toolRounds = toolRounds s,
      res_totalUsage = totalUsage s\<rparr>"

text \<open>
  Lines 599 to 606: the transcript and the two counters are set anew. The system
  prompt is built from the date and the localized texts; it is the field
  \<open>systemPrompt\<close>.
\<close>

definition startTranscript :: "world \<Rightarrow> string \<Rightarrow> Agent \<Rightarrow> Agent" where
  "startTranscript w um s =
     s\<lparr>messages := [systemMessage (systemPrompt w)] @ historyMessages s @ [userMessageOf um],
       toolsUsed := [],
       toolRounds := 0\<rparr>"

text \<open>
  Lines 608 to 619: the catalog is read, the pipeline runs, and the legacy search runs
  when the pipeline did not.
\<close>

definition prepare :: "world \<Rightarrow> string \<Rightarrow> bool \<Rightarrow> Agent \<Rightarrow> string list \<times> Agent" where
  "prepare w um st s =
     (let tools = getAllToolDefinitions w (clock s);
          rp = runSemanticPipeline w um tools st (tick s)
      in (tools, autoSearchPhase w um (fst rp) (snd rp)))"

text \<open>
  Lines 639 to 665: the calls to process (\<open>Inr\<close>), or the final answer (\<open>Inl\<close>).
\<close>

definition answerOrCalls :: "world \<Rightarrow> nat \<Rightarrow> ChatResponse \<Rightarrow> string + ToolCall list" where
  "answerOrCalls w t r =
     (let fallback =
            (if hasToolCallTags (resp_content r) then
               (case parseToolCallTags w t (resp_content r) of
                  Some calls \<Rightarrow> Inr calls
                | None \<Rightarrow> Inl (cleanContentOf (resp_content r)))
             else Inl (resp_content r))
      in case resp_tool_calls r of
           None \<Rightarrow> fallback
         | Some calls \<Rightarrow> if finishReason r \<noteq> ''tool_calls'' then fallback else Inr calls)"

lemma handleResults_rounds:
  "toolRounds (snd (handleResults w st calls rs s)) = toolRounds s
   \<and> maxToolRounds (snd (handleResults w st calls rs s)) = maxToolRounds s"
  by (induction w st calls rs s rule: handleResults.induct)
     (auto simp: pushMessage_def emit_def logEv_def split: list.splits)

lemma handleToolCalls_rounds:
  "toolRounds (snd (handleToolCalls w st calls s)) = toolRounds s
   \<and> maxToolRounds (snd (handleToolCalls w st calls s)) = maxToolRounds s"
  by (simp add: handleToolCalls_def Let_def handleResults_rounds pushMessage_def tick_def
      logEv_def)

lemma addUsage_rounds:
  "toolRounds (addUsage u s) = toolRounds s \<and> maxToolRounds (addUsage u s) = maxToolRounds s"
  by (simp add: addUsage_def split: option.splits)

text \<open>The agent after a model call that returned \<open>r\<close>: the call is logged, time passes, the usage is added.\<close>

definition afterReply :: "bool \<Rightarrow> Agent \<Rightarrow> ChatResponse \<Rightarrow> Agent" where
  "afterReply withTools s r =
     addUsage (usage r) (tick (logEv (ModelCall (clock s) (messages s) withTools) s))"

lemma afterReply_rounds:
  "toolRounds (afterReply b s r) = toolRounds s \<and> maxToolRounds (afterReply b s r) = maxToolRounds s"
  by (simp add: afterReply_def addUsage_rounds tick_def logEv_def)

text \<open>Lines 671 to 683: the forced last call, without tools.\<close>

definition finalAnswer :: "world \<Rightarrow> Agent \<Rightarrow> (exn + AgentResult) \<times> Agent" where
  "finalAnswer w s =
     (let s1 = pushMessage (userMessageOf (lit w FinalInstruction)) s;
          s2 = tick (logEv (ModelCall (clock s1) (messages s1) False) s1)
      in case chat w (clock s1) (messages s1) of
           Inl e \<Rightarrow> (Inl e, s2)
         | Inr r \<Rightarrow> (Inr (resultOf (resp_content r) (afterReply False s1 r)), afterReply False s1 r))"

text \<open>\<^verbatim>\<open>this.toolRounds++\<close>\<close>

definition nextRound :: "Agent \<Rightarrow> Agent" where
  "nextRound s = s\<lparr>toolRounds := toolRounds s + 1\<rparr>"

text \<open>The round loop of \<^verbatim>\<open>execute\<close>, lines 621 to 669, and what follows it.\<close>

function executeLoop :: "world \<Rightarrow> string list \<Rightarrow> Agent \<Rightarrow> (exn + AgentResult) \<times> Agent" where
  "executeLoop w tools s =
     (if of_int (toolRounds s) < maxToolRounds s then
        (if isAborted w s then (Inr (resultOf [] s), logEv (AbortObserved (clock s)) s)
         else
           (case chat w (clock s) (messages s) of
              Inl e \<Rightarrow> (Inl e, tick (logEv (ModelCall (clock s) (messages s) True) s))
            | Inr r \<Rightarrow>
                (case answerOrCalls w (Suc (clock s)) r of
                   Inl final \<Rightarrow> (Inr (resultOf final (afterReply True s r)), afterReply True s r)
                 | Inr calls \<Rightarrow>
                     (case fst (handleToolCalls w False calls (afterReply True s r)) of
                        Some e \<Rightarrow> (Inl e, snd (handleToolCalls w False calls (afterReply True s r)))
                      | None \<Rightarrow>
                          executeLoop w tools
                            (nextRound (snd (handleToolCalls w False calls (afterReply True s r))))))))
      else finalAnswer w s)"
  by pat_completeness auto
termination
  by (relation "measure (\<lambda>(w, tools, s). nat (\<lceil>maxToolRounds s\<rceil> - toolRounds s))")
     (auto simp: nextRound_def handleToolCalls_rounds afterReply_rounds less_ceiling_iff)

declare executeLoop.simps [simp del]

text \<open>\<^verbatim>\<open>execute\<close>\<close>

definition execute :: "world \<Rightarrow> string \<Rightarrow> Agent \<Rightarrow> (exn + AgentResult) \<times> Agent" where
  "execute w um s =
     (if isAborted w s then
        (Inr \<lparr>res_content = [], res_toolsUsed = [], res_toolRounds = 0,
              res_totalUsage = totalUsage s\<rparr>,
         logEv (AbortObserved (clock s)) s)
      else
        (let p = prepare w um False (startTranscript w um s)
         in executeLoop w (fst p) (snd p)))"

section \<open>The streaming entry point\<close>

text \<open>The variables of one round of \<^verbatim>\<open>executeStream\<close> (lines 731 to 735).\<close>

record RoundVars =
  accumulatedContent :: string
  displayedContent :: string
  toolCalls :: "ToolCall list option"
  isBufferingToolCall :: bool
  isBufferingThink :: bool

definition freshRound :: RoundVars where
  "freshRound =
     \<lparr>accumulatedContent = [], displayedContent = [], toolCalls = None,
      isBufferingToolCall = False, isBufferingThink = False\<rparr>"

text \<open>Lines 755 to 765: an opening thinking marker is in the buffer.\<close>

definition thinkOpen :: "RoundVars \<Rightarrow> Agent \<Rightarrow> RoundVars \<times> Agent" where
  "thinkOpen v s =
     (if \<not> isBufferingThink v \<and> testI ''<think>'' (accumulatedContent v) then
        (let thinkStart = indexOf (toLowerCase (accumulatedContent v)) ''<think>'';
             newContent =
               slice (accumulatedContent v) (int (length (displayedContent v))) thinkStart
         in if thinkStart > int (length (displayedContent v)) \<and> newContent \<noteq> [] then
              (v\<lparr>isBufferingThink := True,
                 displayedContent := slice (accumulatedContent v) 0 thinkStart\<rparr>,
               emit True (ContentChunk newContent) s)
            else (v\<lparr>isBufferingThink := True\<rparr>, s))
      else (v, s))"

text \<open>Lines 767 to 771: a closing thinking marker is in the buffer.\<close>

definition thinkClose :: "RoundVars \<Rightarrow> RoundVars" where
  "thinkClose v =
     (if isBufferingThink v \<and> testI ''</think>'' (accumulatedContent v) then
        v\<lparr>isBufferingThink := False,
          displayedContent :=
            slice (accumulatedContent v) 0
              (indexOf (toLowerCase (accumulatedContent v)) ''</think>''
                 + int (length ''</think>''))\<rparr>
      else v)"

text \<open>Lines 775 to 793: forwarding outside a thinking span.\<close>

definition forward :: "RoundVars \<Rightarrow> Agent \<Rightarrow> RoundVars \<times> Agent" where
  "forward v s =
     (if \<not> isBufferingToolCall v then
        (if testI ''<tool_call>'' (accumulatedContent v) then
           (let tagStart = indexOf (accumulatedContent v) ''<tool_call>'';
                newContent =
                  slice (accumulatedContent v) (int (length (displayedContent v))) tagStart
            in if tagStart > int (length (displayedContent v)) \<and> newContent \<noteq> [] then
                 (v\<lparr>isBufferingToolCall := True,
                    displayedContent := slice (accumulatedContent v) 0 tagStart\<rparr>,
                  emit True (ContentChunk newContent) s)
               else (v\<lparr>isBufferingToolCall := True\<rparr>, s))
         else
           (let newContent =
                  sliceFrom (accumulatedContent v) (int (length (displayedContent v)))
            in if newContent \<noteq> [] then
                 (v\<lparr>displayedContent := accumulatedContent v\<rparr>,
                  emit True (ContentChunk newContent) s)
               else (v, s)))
      else (v, s))"

text \<open>
  Lines 752 to 794: what a delta with content does. The first component says that the
  \<^verbatim>\<open>continue\<close> of line 773 was taken, which skips the rest of the loop body.
\<close>

definition onContent :: "string \<Rightarrow> RoundVars \<Rightarrow> Agent \<Rightarrow> bool \<times> RoundVars \<times> Agent" where
  "onContent delta v s =
     (let opened = thinkOpen (v\<lparr>accumulatedContent := accumulatedContent v @ delta\<rparr>) s;
          v1 = thinkClose (fst opened)
      in if isBufferingThink v1 then (True, v1, snd opened)
         else (False, forward v1 (snd opened)))"

text \<open>How one step of a round ends: on with the loop, a return, or an exception.\<close>

datatype flow = Next RoundVars Agent | Return AgentResult Agent | Throw exn Agent

text \<open>\<^verbatim>\<open>onChunk({type: 'done', ...})\<close>\<close>

definition emitDone :: "Agent \<Rightarrow> Agent" where
  "emitDone s = emit True (DoneChunk (totalUsage s)) s"

text \<open>Lines 804 to 837: the delta that carries the completion flag.\<close>

definition onFinished :: "world \<Rightarrow> StreamChunk \<Rightarrow> RoundVars \<Rightarrow> Agent \<Rightarrow> flow" where
  "onFinished w ch v s =
     (if chunk_finishReason ch \<noteq> ''tool_calls'' \<or> toolCalls v = None then
        (if hasToolCallTags (accumulatedContent v) then
           (case parseToolCallTags w (clock s) (accumulatedContent v) of
              Some calls \<Rightarrow>
                Next (v\<lparr>toolCalls := Some calls,
                        accumulatedContent :=
                          trim (removeAllSpans ''<tool_call>'' ''</tool_call>''
                                  (cleanContentOf (accumulatedContent v)))\<rparr>) s
            | None \<Rightarrow>
                (let cleanContent = cleanContentOf (accumulatedContent v);
                     remainingContent =
                       sliceFrom cleanContent (int (length (displayedContent v)));
                     s1 = (if remainingContent \<noteq> [] then
                             emit True (ContentChunk remainingContent) s
                           else s)
                 in Return (resultOf cleanContent (emitDone s1)) (emitDone s1)))
         else
           Return (resultOf (cleanContentOf (accumulatedContent v)) (emitDone s)) (emitDone s))
      else Next v s)"

text \<open>
  Lines 742 to 837: the body of the loop over the deltas, for one delta. \<open>fc\<close> is
  \<^verbatim>\<open>finalContent\<close>.
\<close>

definition streamStep :: "world \<Rightarrow> string \<Rightarrow> StreamChunk \<Rightarrow> RoundVars \<Rightarrow> Agent \<Rightarrow> flow" where
  "streamStep w fc ch v s =
     (if isAborted w s then
        Return (resultOf (fc @ accumulatedContent v) (emitDone (logEv (AbortObserved (clock s)) s)))
          (emitDone (logEv (AbortObserved (clock s)) s))
      else
        (let delta = (case chunk_content ch of None \<Rightarrow> [] | Some d \<Rightarrow> d);
             r = (if delta \<noteq> [] then onContent delta v s else (False, v, s))
         in if fst r then Next (fst (snd r)) (snd (snd r))
            else
              (let v1 = (case chunk_tool_calls ch of
                           None \<Rightarrow> fst (snd r)
                         | Some calls \<Rightarrow> (fst (snd r))\<lparr>toolCalls := Some calls\<rparr>);
                   s1 = addUsage (chunk_usage ch) (snd (snd r))
               in if isFinished ch then onFinished w ch v1 s1 else Next v1 s1)))"

text \<open>
  The loop over the deltas of one model call. Each delta is awaited, and so is the end
  of the stream.
\<close>

fun streamRound :: "world \<Rightarrow> string \<Rightarrow> (exn + StreamChunk) list \<Rightarrow> RoundVars \<Rightarrow> Agent \<Rightarrow> flow" where
  "streamRound w fc [] v s = Next v (tick s)"
| "streamRound w fc (item # rest) v s =
     (case item of
        Inl e \<Rightarrow> Throw e (tick s)
      | Inr ch \<Rightarrow>
          (case streamStep w fc ch v (tick s) of
             Next v' s' \<Rightarrow> streamRound w fc rest v' s'
           | Return r s' \<Rightarrow> Return r s'
           | Throw e s' \<Rightarrow> Throw e s'))"

text \<open>Lines 841 to 861: one \<^verbatim>\<open>tool_start\<close> chunk for each call.\<close>

definition announce :: "ToolCall list \<Rightarrow> Agent \<Rightarrow> Agent" where
  "announce calls s = foldl (\<lambda>a tc. emit True (ToolStartChunk (fn_name tc)) a) s calls"

text \<open>Lines 840 to 865: the calls of the round are dispatched, if there are any.\<close>

definition afterStream :: "world \<Rightarrow> RoundVars \<Rightarrow> Agent \<Rightarrow> exn option \<times> Agent" where
  "afterStream w v s =
     (case toolCalls v of
        None \<Rightarrow> (None, s)
      | Some calls \<Rightarrow>
          if length calls > 0 then
            (case fst (handleToolCalls w True calls (announce calls s)) of
               Some e \<Rightarrow> (Some e, snd (handleToolCalls w True calls (announce calls s)))
             | None \<Rightarrow> (None, nextRound (snd (handleToolCalls w True calls (announce calls s)))))
          else (None, s))"

text \<open>Lines 882 to 896: the loop over the deltas of the forced last call.\<close>

fun finalStream :: "world \<Rightarrow> (exn + StreamChunk) list \<Rightarrow> string \<Rightarrow> Agent \<Rightarrow> exn option \<times> string \<times> Agent" where
  "finalStream w [] fc s = (None, fc, tick s)"
| "finalStream w (item # rest) fc s =
     (case item of
        Inl e \<Rightarrow> (Some e, fc, tick s)
      | Inr ch \<Rightarrow>
          if isAborted w (tick s) then
            (None, fc, emitDone (logEv (AbortObserved (clock (tick s))) (tick s)))
          else
            (let delta = (case chunk_content ch of None \<Rightarrow> [] | Some d \<Rightarrow> d);
                 s1 = (if delta \<noteq> [] then emit True (ContentChunk delta) (tick s) else tick s);
                 s2 = addUsage (chunk_usage ch) s1;
                 s3 = (if isFinished ch then emitDone s2 else s2)
             in finalStream w rest (fc @ delta) s3))"

text \<open>Lines 868 to 904: after the round loop.\<close>

definition streamFinale :: "world \<Rightarrow> string \<Rightarrow> Agent \<Rightarrow> (exn + AgentResult) \<times> Agent" where
  "streamFinale w fc s =
     (if isAborted w s then
        (Inr (resultOf fc (emitDone (logEv (AbortObserved (clock s)) s))),
         emitDone (logEv (AbortObserved (clock s)) s))
      else
        (let s1 = pushMessage (userMessageOf (lit w FinalInstruction)) s;
             r = finalStream w (chatStream w (clock s1) (messages s1)) fc
                   (logEv (ModelCall (clock s1) (messages s1) False) s1)
         in case fst r of
              Some e \<Rightarrow> (Inl e, snd (snd r))
            | None \<Rightarrow> (Inr (resultOf (fst (snd r)) (snd (snd r))), snd (snd r))))"

text \<open>
  The round loop of \<^verbatim>\<open>executeStream\<close>, lines 720 to 866. A round that ends with no
  call to dispatch and no completion flag leaves the counter as it is, so the loop may
  run forever: \<open>fuel\<close> bounds the number of rounds, and \<open>None\<close> says that it ran out.
\<close>

fun executeStreamLoop :: "nat \<Rightarrow> world \<Rightarrow> string list \<Rightarrow> string \<Rightarrow> Agent \<Rightarrow> ((exn + AgentResult) \<times> Agent) option" where
  "executeStreamLoop fuel w tools fc s =
     (if of_int (toolRounds s) < maxToolRounds s then
        (if isAborted w s then
           Some (Inr (resultOf fc (emitDone (logEv (AbortObserved (clock s)) s))),
                 emitDone (logEv (AbortObserved (clock s)) s))
         else
           (case fuel of
              0 \<Rightarrow> None
            | Suc fuel' \<Rightarrow>
                (case streamRound w fc (chatStream w (clock s) (messages s)) freshRound
                        (logEv (ModelCall (clock s) (messages s) True) s) of
                   Return r s' \<Rightarrow> Some (Inr r, s')
                 | Throw e s' \<Rightarrow> Some (Inl e, s')
                 | Next v s' \<Rightarrow>
                     (case fst (afterStream w v s') of
                        Some e \<Rightarrow> Some (Inl e, snd (afterStream w v s'))
                      | None \<Rightarrow> executeStreamLoop fuel' w tools fc (snd (afterStream w v s'))))))
      else Some (streamFinale w fc s))"

declare executeStreamLoop.simps [simp del]

text \<open>\<^verbatim>\<open>executeStream\<close>\<close>

definition executeStream :: "nat \<Rightarrow> world \<Rightarrow> string \<Rightarrow> Agent \<Rightarrow> ((exn + AgentResult) \<times> Agent) option" where
  "executeStream fuel w um s =
     (if isAborted w s then
        Some (Inr \<lparr>res_content = [], res_toolsUsed = [], res_toolRounds = 0,
                   res_totalUsage = totalUsage s\<rparr>,
              emitDone (logEv (AbortObserved (clock s)) s))
      else
        (let p = prepare w um True (startTranscript w um s)
         in executeStreamLoop fuel w (fst p) [] (snd p)))"

section \<open>Reading a log, and concrete worlds\<close>

text \<open>The times at which model calls were issued, and the content chunks forwarded.\<close>

definition modelCallTimes :: "event list \<Rightarrow> nat list" where
  "modelCallTimes evs = [t. ModelCall t ms b \<leftarrow> evs]"

definition toolDispatchTimes :: "event list \<Rightarrow> nat list" where
  "toolDispatchTimes evs = [t. ToolDispatch t calls \<leftarrow> evs]"

definition forwarded :: "event list \<Rightarrow> string list" where
  "forwarded evs = [c. Emit (ContentChunk c) \<leftarrow> evs]"

text \<open>The usage records that the deltas of one streamed reply carry.\<close>

definition streamUsages :: "(exn + StreamChunk) list \<Rightarrow> TokenUsage list" where
  "streamUsages items = [u. Inr ch \<leftarrow> items, Some u \<leftarrow> [chunk_usage ch]]"

text \<open>
  A world in which nothing is configured: no embedding model, an empty catalog, a
  transport that is down, a tool runtime that answers every call with an empty object,
  no cancellation. The built-in functions are stand-ins. Parsing fails on every text:
  the only texts parsed below are not JSON. Every value is serialized as the text of the
  empty object: the only tool result serialized below is the empty object, and the
  arguments of the forced calls, which are serialized too, are read by no statement.
\<close>

definition quietWorld :: world where
  "quietWorld =
     \<lparr>systemPrompt = ''You analyse chat records.'',
      getAllToolDefinitions = (\<lambda>t. []),
      getActiveConfig = (\<lambda>t. Inr None),
      chat = (\<lambda>t ms. Inl (TransportError ''unreachable'')),
      chatStream = (\<lambda>t ms. [Inl (TransportError ''unreachable'')]),
      executeToolCalls =
        (\<lambda>t calls. map (\<lambda>c. \<lparr>success = True, result = JObj [], error = []\<rparr>) calls),
      randomUUID = (\<lambda>t i. ''0000''),
      abortAt = None,
      maxMessagesLimit = None,
      JSON_parse = (\<lambda>x. None),
      JSON_stringify = (\<lambda>v. ''{}''),
      JSON_stringify2 = (\<lambda>v. ''{}''),
      toStr = (\<lambda>v. []),
      toFixed1 = (\<lambda>v. ''0.0''),
      lit = (\<lambda>l. ''(zh)''),
      triggers = []\<rparr>"

definition usage15 :: TokenUsage where
  "usage15 = \<lparr>promptTokens = 10, completionTokens = 5, totalTokens = 15\<rparr>"

text \<open>A reply of the blocking transport with no tool calls, and deltas of the streaming one.\<close>

definition reply :: "string \<Rightarrow> ChatResponse" where
  "reply c =
     \<lparr>resp_content = c, resp_tool_calls = None, finishReason = ''stop'', usage = Some usage15\<rparr>"

definition delta :: "string \<Rightarrow> StreamChunk" where
  "delta c =
     \<lparr>chunk_content = Some c, chunk_tool_calls = None, chunk_usage = None,
      isFinished = False, chunk_finishReason = []\<rparr>"

definition lastDelta :: "string \<Rightarrow> StreamChunk" where
  "lastDelta c =
     \<lparr>chunk_content = Some c, chunk_tool_calls = None, chunk_usage = Some usage15,
      isFinished = True, chunk_finishReason = ''stop''\<rparr>"

definition recentCall :: ToolCall where
  "recentCall =
     \<lparr>tc_id = ''call_1'', fn_name = ''get_recent_messages'', fn_arguments = ''{}''\<rparr>"

text \<open>The model answers every call with the same text.\<close>

definition replyingWorld :: "string \<Rightarrow> world" where
  "replyingWorld c =
     quietWorld\<lparr>chat := (\<lambda>t ms. Inr (reply c)), chatStream := (\<lambda>t ms. [Inr (lastDelta c)])\<rparr>"

text \<open>
  The first streamed reply stops inside a thinking span that is never closed; its last
  delta carries text, the completion flag and the usage. The later replies are plain.
\<close>

definition truncatedThinkWorld :: world where
  "truncatedThinkWorld =
     quietWorld
       \<lparr>chatStream :=
          (\<lambda>t ms. if t = 1 then [Inr (delta ''<think>plan''), Inr (lastDelta '' cut off'')]
                   else [Inr (lastDelta ''ok'')])\<rparr>"

text \<open>A streamed reply in three deltas: a whole thinking span, then two pieces of the answer.\<close>

definition thinkThenAnswerWorld :: world where
  "thinkThenAnswerWorld =
     quietWorld
       \<lparr>chatStream :=
          (\<lambda>t ms. [Inr (delta ''<think>a</think>''), Inr (delta ''b''), Inr (lastDelta ''c'')])\<rparr>"

text \<open>
  The first reply asks for one tool call, the later ones are plain; cancellation is
  signalled once \<open>k\<close> suspension points have passed.
\<close>

definition cancelledWorld :: "nat \<Rightarrow> world" where
  "cancelledWorld k =
     quietWorld
       \<lparr>chat :=
          (\<lambda>t ms. if t = 1 then
                     Inr \<lparr>resp_content = [], resp_tool_calls = Some [recentCall],
                          finishReason = ''tool_calls'', usage = Some usage15\<rparr>
                   else Inr (reply ''late answer'')),
        chatStream :=
          (\<lambda>t ms. if t = 1 then
                     [Inr \<lparr>chunk_content = None, chunk_tool_calls = Some [recentCall],
                           chunk_usage = Some usage15, isFinished = True,
                           chunk_finishReason = ''tool_calls''\<rparr>]
                   else [Inr (lastDelta ''late answer'')]),
        abortAt := Some k\<rparr>"

text \<open>
  An embedding model is configured and the catalog has the search tool; the rewriting
  call is answered with a text that holds no JSON object, so nothing is parsed.
\<close>

definition semanticWorld :: world where
  "semanticWorld =
     quietWorld
       \<lparr>getAllToolDefinitions := (\<lambda>t. [semanticTool, ''get_recent_messages'']),
        getActiveConfig := (\<lambda>t. Inr (Some ''text-embedding-3-small'')),
        chat := (\<lambda>t ms. Inr (reply ''no plan'')),
        chatStream := (\<lambda>t ms. [Inr (lastDelta ''ok'')])\<rparr>"

text \<open>An earlier turn of the conversation, and two calls of one round.\<close>

definition earlierTurn :: "ChatMessage list" where
  "earlierTurn =
     [userMessageOf ''who wrote most?'',
      \<lparr>role = Assistant, content = ''Alice.'', tool_calls = None, tool_call_id = None\<rparr>]"




text \<open>The model asks for the same tool call in every reply.\<close>

definition toolHungryWorld :: world where
  "toolHungryWorld =
     quietWorld
       \<lparr>chat :=
          (\<lambda>t ms. Inr \<lparr>resp_content = [], resp_tool_calls = Some [recentCall],
                        finishReason = ''tool_calls'', usage = Some usage15\<rparr>),
        chatStream :=
          (\<lambda>t ms. [Inr \<lparr>chunk_content = None, chunk_tool_calls = Some [recentCall],
                          chunk_usage = Some usage15, isFinished = True,
                          chunk_finishReason = ''tool_calls''\<rparr>])\<rparr>"

section \<open>Facts about the parsers and the transcript\<close>

lemma map_filter_empty_iff: "List.map_filter f xs = [] \<longleftrightarrow> (\<forall>x\<in>set xs. f x = None)"
  by (induction xs) (auto simp: List.map_filter_simps split: option.splits)

lemma parse_None_iff:
  "(parseToolCallTags w t s = None) = (\<forall>b\<in>set (toolCallBlocks s). toolCallOfBlock w b = None)"
proof -
  have "(parseToolCallTags w t s = None)
        = (List.map_filter (toolCallOfBlock w) (toolCallBlocks s) = [])"
    by (simp add: parseToolCallTags_def Let_def)
  then show ?thesis by (simp only: map_filter_empty_iff)
qed

lemma findSub_prefix: "prefix n s \<Longrightarrow> findSub n s = Some 0"
  by (cases s) auto

lemma findSub_Cons: "findSub n cs \<noteq> None \<Longrightarrow> findSub n (c # cs) \<noteq> None"
  by auto

lemma take_eq_prefix: "take (length n) s = n \<Longrightarrow> prefix n s"
  by (metis take_is_prefix)

lemma toLowerCase_Cons: "findSub n (toLowerCase cs) \<noteq> None \<Longrightarrow> findSub n (toLowerCase (c # cs)) \<noteq> None"
  by (simp add: toLowerCase_def)

lemma scanSpans_Inl:
  "Inl m \<in> set (scanSpans opn cls k s) \<Longrightarrow> findSub opn (toLowerCase s) \<noteq> None"
proof (induction opn cls k s rule: scanSpans.induct)
  case (1 opn cls n)
  then show ?case by simp
next
  case (2 opn cls n c cs)
  then have "findSub opn (toLowerCase cs) \<noteq> None" by simp
  then show ?case by (rule toLowerCase_Cons)
next
  case (3 opn cls c cs)
  show ?case
  proof (cases "toLowerCase (take (length opn) (c # cs)) = opn")
    case True
    have "take (length opn) (toLowerCase (c # cs)) = toLowerCase (take (length opn) (c # cs))"
      unfolding toLowerCase_def by (rule take_map)
    with True have "prefix opn (toLowerCase (c # cs))" by (simp add: take_eq_prefix)
    then show ?thesis by (simp add: findSub_prefix)
  next
    case False
    with 3 have "findSub opn (toLowerCase cs) \<noteq> None" by auto
    then show ?thesis by (rule toLowerCase_Cons)
  qed
qed

lemma set_Inl_comprehension: "(m \<in> set [x. Inl x \<leftarrow> xs]) = (Inl m \<in> set xs)"
  by (induction xs) (auto split: sum.splits)

lemma blocks_have_marker: "toolCallBlocks s \<noteq> [] \<Longrightarrow> hasToolCallTags s"
proof -
  assume "toolCallBlocks s \<noteq> []"
  then have "matchAllSpans ''<tool_call>'' ''</tool_call>'' s \<noteq> []"
    by (simp add: toolCallBlocks_def)
  then obtain m where "m \<in> set (matchAllSpans ''<tool_call>'' ''</tool_call>'' s)"
    by (cases "matchAllSpans ''<tool_call>'' ''</tool_call>'' s") auto
  then have "Inl m \<in> set (scanSpans ''<tool_call>'' ''</tool_call>'' 0 s)"
    unfolding matchAllSpans_def by (simp only: set_Inl_comprehension)
  then have "findSub ''<tool_call>'' (toLowerCase s) \<noteq> None" by (rule scanSpans_Inl)
  then show ?thesis by (simp add: hasToolCallTags_def testI_def)
qed

lemma findIndex_ge: "- 1 \<le> findIndex P xs"
  by (induction xs) (auto simp: Let_def)


lemma findIndex_append_hit:
  "(\<forall>x\<in>set xs. \<not> P x) \<Longrightarrow> P y \<Longrightarrow> findIndex P (xs @ y # ys) = int (length xs)"
  by (induction xs) (auto simp: Let_def)

lemma insertBeforeLastUser_hit:
  assumes "role u = User" and "\<forall>m\<in>set post. role m \<noteq> User"
  shows "insertBeforeLastUser ev (pre @ u # post) = pre @ ev # u # post"
proof -
  have "findIndex (\<lambda>x. role x = User) (rev (pre @ u # post)) = int (length post)"
    using assms findIndex_append_hit [of "rev post" "\<lambda>x. role x = User" u "rev pre"] by simp
  then show ?thesis
    by (simp add: insertBeforeLastUser_def splice0_def Let_def)
qed





lemma clock_emit: "clock (emit st c s) = clock s"
  by (simp add: emit_def logEv_def)

lemma messages_emit: "messages (emit st c s) = messages s"
  by (simp add: emit_def logEv_def)


lemma rewriteQuery_messages: "messages (snd (rewriteQuery w um s)) = messages s"
  by (simp add: rewriteQuery_def Let_def tick_def logEv_def addUsage_def
      split: sum.splits option.splits)

lemma pipeline_ran:
  assumes "getEmbeddingModel w (clock s) \<noteq> None" and "semanticTool \<in> set tools"
  shows "fst (runSemanticPipeline w um tools st s)
    \<and> messages (snd (runSemanticPipeline w um tools st s))
        = (case forcedResult w um s of
             None \<Rightarrow>
               messages s @ [assistantMessage [pipelineCall w um s],
                             forcedToolMessage w None (pipelineCall w um s)]
           | Some r \<Rightarrow>
               if success r \<and> truthy (result r) then
                 insertBeforeLastUser
                   (systemMessage (evidenceBlock w (fst (rewriteQuery w um s)) (result r)))
                   (messages s @ [assistantMessage [pipelineCall w um s],
                                  forcedToolMessage w (Some r) (pipelineCall w um s)])
               else messages s @ [assistantMessage [pipelineCall w um s],
                                  forcedToolMessage w (Some r) (pipelineCall w um s)])"
  using assms
  by (auto simp: runSemanticPipeline_def forcedResult_def pipelineCall_def Let_def clock_emit
      messages_emit pushMessage_def tick_def logEv_def rewriteQuery_messages
      split: option.splits)


lemma pipeline_tail_roles:
  "role (assistantMessage calls) \<noteq> User \<and> role (forcedToolMessage w first call) \<noteq> User"
  by (simp add: assistantMessage_def forcedToolMessage_def toolMessage_def)




lemma getProp_None_iff: "(getProp v k = None) = (v = JNull \<or> v = JUndefined)"
  by (cases v) (auto simp: getProp_def)






lemma runAutoSemanticSearch_frame:
  "toolsUsed (snd (runAutoSemanticSearch w um s)) = toolsUsed s
   \<and> toolRounds (snd (runAutoSemanticSearch w um s)) = toolRounds s
   \<and> maxToolRounds (snd (runAutoSemanticSearch w um s)) = maxToolRounds s
   \<and> totalUsage (snd (runAutoSemanticSearch w um s)) = totalUsage s
   \<and> messages (snd (runAutoSemanticSearch w um s)) = messages s"
  by (simp add: runAutoSemanticSearch_def Let_def tick_def logEv_def)

lemma autoSearchPhase_frame:
  "toolsUsed (autoSearchPhase w um rp s) = toolsUsed s
   \<and> toolRounds (autoSearchPhase w um rp s) = toolRounds s
   \<and> maxToolRounds (autoSearchPhase w um rp s) = maxToolRounds s
   \<and> totalUsage (autoSearchPhase w um rp s) = totalUsage s"
  by (simp add: autoSearchPhase_def Let_def runAutoSemanticSearch_frame split: option.splits)





text \<open>The round counter and the budget through an execution.\<close>

lemma rewriteQuery_rounds:
  "toolRounds (snd (rewriteQuery w um s)) = toolRounds s
   \<and> maxToolRounds (snd (rewriteQuery w um s)) = maxToolRounds s"
  by (simp add: rewriteQuery_def Let_def tick_def logEv_def addUsage_rounds split: sum.splits)

lemma emit_rounds:
  "toolRounds (emit st c s) = toolRounds s \<and> maxToolRounds (emit st c s) = maxToolRounds s"
  by (simp add: emit_def logEv_def)

lemma runSemanticPipeline_rounds:
  "toolRounds (snd (runSemanticPipeline w um tools st s)) = toolRounds s
   \<and> maxToolRounds (snd (runSemanticPipeline w um tools st s)) = maxToolRounds s"
  by (simp add: runSemanticPipeline_def Let_def emit_rounds pushMessage_def tick_def logEv_def
      rewriteQuery_rounds split: option.splits)

lemma prepare_rounds:
  "toolRounds (snd (prepare w um st s)) = toolRounds s
   \<and> maxToolRounds (snd (prepare w um st s)) = maxToolRounds s"
  using runSemanticPipeline_rounds [of w um "getAllToolDefinitions w (clock s)" st "tick s"]
  by (simp add: prepare_def Let_def autoSearchPhase_frame tick_def)

lemma finalAnswer_rounds:
  "fst (finalAnswer w s) = Inr r \<Longrightarrow> res_toolRounds r = toolRounds s"
  by (auto simp: finalAnswer_def Let_def resultOf_def afterReply_rounds pushMessage_def
      split: sum.splits)

lemma executeLoop_rounds:
  "toolRounds s \<le> max 0 \<lceil>maxToolRounds s\<rceil> \<Longrightarrow> fst (executeLoop w tools s) = Inr r \<Longrightarrow>
   res_toolRounds r \<le> max 0 \<lceil>maxToolRounds s\<rceil>"
proof (induction w tools s rule: executeLoop.induct)
  case (1 w tools s)
  show ?case
  proof (cases "of_int (toolRounds s) < maxToolRounds s")
    case False
    then have "fst (finalAnswer w s) = Inr r"
      using "1.prems"(2) by (simp add: executeLoop.simps [of w tools s])
    then show ?thesis using "1.prems"(1) by (simp add: finalAnswer_rounds)
  next
    case budget: True
    show ?thesis
    proof (cases "isAborted w s")
      case True
      then have "r = resultOf [] s"
        using "1.prems"(2) budget by (simp add: executeLoop.simps [of w tools s])
      then show ?thesis using "1.prems"(1) by (simp add: resultOf_def)
    next
      case live: False
      show ?thesis
      proof (cases "chat w (clock s) (messages s)")
        case (Inl e)
        then show ?thesis
          using "1.prems"(2) budget live by (simp add: executeLoop.simps [of w tools s])
      next
        case (Inr resp)
        show ?thesis
        proof (cases "answerOrCalls w (Suc (clock s)) resp")
          case (Inl final)
          then have "r = resultOf final (afterReply True s resp)"
            using "1.prems"(2) budget live Inr by (simp add: executeLoop.simps [of w tools s])
          then show ?thesis
            using "1.prems"(1) by (simp add: resultOf_def afterReply_rounds)
        next
          case calls: (Inr calls)
          let ?h = "handleToolCalls w False calls (afterReply True s resp)"
          show ?thesis
          proof (cases "fst ?h")
            case (Some e)
            then show ?thesis
              using "1.prems"(2) budget live Inr calls
              by (simp add: executeLoop.simps [of w tools s])
          next
            case None
            have next_state: "toolRounds (nextRound (snd ?h)) = toolRounds s + 1"
              "maxToolRounds (nextRound (snd ?h)) = maxToolRounds s"
              by (simp_all add: nextRound_def handleToolCalls_rounds afterReply_rounds)
            have run: "fst (executeLoop w tools (nextRound (snd ?h))) = Inr r"
              using "1.prems"(2) budget live Inr calls None
              by (simp add: executeLoop.simps [of w tools s])
            have "toolRounds s < \<lceil>maxToolRounds s\<rceil>"
              using budget by (simp add: less_ceiling_iff)
            then have "res_toolRounds r \<le> max 0 \<lceil>maxToolRounds (nextRound (snd ?h))\<rceil>"
              using "1.IH" [OF budget live Inr calls None _ run] next_state by simp
            then show ?thesis using next_state by simp
          qed
        qed
      qed
    qed
  qed
qed

lemma execute_rounds:
  "fst (execute w um s) = Inr r \<Longrightarrow> res_toolRounds r \<le> max 0 \<lceil>maxToolRounds s\<rceil>"
proof -
  assume run: "fst (execute w um s) = Inr r"
  show ?thesis
  proof (cases "isAborted w s")
    case True
    then show ?thesis using run by (auto simp: execute_def)
  next
    case False
    let ?p = "snd (prepare w um False (startTranscript w um s))"
    have p: "toolRounds ?p = 0" "maxToolRounds ?p = maxToolRounds s"
      by (simp_all add: prepare_rounds startTranscript_def)
    have "fst (executeLoop w (fst (prepare w um False (startTranscript w um s))) ?p) = Inr r"
      using run False by (simp add: execute_def Let_def)
    then have "res_toolRounds r \<le> max 0 \<lceil>maxToolRounds ?p\<rceil>"
      using p by (intro executeLoop_rounds) simp_all
    then show ?thesis using p by simp
  qed
qed


lemma thinkOpen_rounds:
  "toolRounds (snd (thinkOpen v s)) = toolRounds s
   \<and> maxToolRounds (snd (thinkOpen v s)) = maxToolRounds s"
  by (simp add: thinkOpen_def Let_def emit_rounds)

lemma forward_rounds:
  "toolRounds (snd (forward v s)) = toolRounds s
   \<and> maxToolRounds (snd (forward v s)) = maxToolRounds s"
  by (simp add: forward_def Let_def emit_rounds)

lemma onContent_rounds:
  "toolRounds (snd (snd (onContent d v s))) = toolRounds s
   \<and> maxToolRounds (snd (snd (onContent d v s))) = maxToolRounds s"
  by (simp add: onContent_def Let_def thinkOpen_rounds forward_rounds)

lemma emitDone_rounds:
  "toolRounds (emitDone s) = toolRounds s \<and> maxToolRounds (emitDone s) = maxToolRounds s"
  by (simp add: emitDone_def emit_rounds)

text \<open>What a step of a round leaves of the two counters.\<close>

fun flowKeeps :: "Agent \<Rightarrow> flow \<Rightarrow> bool" where
  "flowKeeps s (Next v s') = (toolRounds s' = toolRounds s \<and> maxToolRounds s' = maxToolRounds s)"
| "flowKeeps s (Return r s') = (res_toolRounds r = toolRounds s)"
| "flowKeeps s (Throw e s') = True"

lemma onFinished_keeps: "flowKeeps s (onFinished w ch v s)"
  by (simp add: onFinished_def Let_def resultOf_def emitDone_rounds emit_rounds
      split: option.splits)

lemma flowKeeps_trans:
  "toolRounds s1 = toolRounds s \<Longrightarrow> maxToolRounds s1 = maxToolRounds s \<Longrightarrow>
   flowKeeps s1 f \<Longrightarrow> flowKeeps s f"
  by (cases f) simp_all

lemma streamStep_keeps: "flowKeeps s (streamStep w fc ch v s)"
proof (cases "isAborted w s")
  case True
  then show ?thesis by (simp add: streamStep_def resultOf_def emitDone_rounds logEv_def)
next
  case False
  define d where "d = (case chunk_content ch of None \<Rightarrow> [] | Some x \<Rightarrow> x)"
  define r where "r = (if d \<noteq> [] then onContent d v s else (False, v, s))"
  define v1 where "v1 = (case chunk_tool_calls ch of
                           None \<Rightarrow> fst (snd r)
                         | Some calls \<Rightarrow> (fst (snd r))\<lparr>toolCalls := Some calls\<rparr>)"
  define s1 where "s1 = addUsage (chunk_usage ch) (snd (snd r))"
  have r: "toolRounds (snd (snd r)) = toolRounds s" "maxToolRounds (snd (snd r)) = maxToolRounds s"
    by (simp_all add: r_def onContent_rounds)
  then have s1: "toolRounds s1 = toolRounds s" "maxToolRounds s1 = maxToolRounds s"
    by (simp_all add: s1_def addUsage_rounds)
  have step: "streamStep w fc ch v s
      = (if fst r then Next (fst (snd r)) (snd (snd r))
         else if isFinished ch then onFinished w ch v1 s1 else Next v1 s1)"
    using False unfolding streamStep_def Let_def d_def r_def v1_def s1_def by simp
  have "flowKeeps s (onFinished w ch v1 s1)"
    using s1 onFinished_keeps by (rule flowKeeps_trans)
  then show ?thesis using r s1 by (simp add: step)
qed

lemma streamRound_keeps: "flowKeeps s (streamRound w fc chunks v s)"
proof (induction chunks arbitrary: v s)
  case Nil
  then show ?case by (simp add: tick_def)
next
  case (Cons item rest)
  show ?case
  proof (cases item)
    case (Inl e)
    then show ?thesis by simp
  next
    case (Inr ch)
    have step: "flowKeeps (tick s) (streamStep w fc ch v (tick s))" by (rule streamStep_keeps)
    show ?thesis
    proof (cases "streamStep w fc ch v (tick s)")
      case (Next v' s')
      with step have "toolRounds s' = toolRounds s" "maxToolRounds s' = maxToolRounds s"
        by (simp_all add: tick_def)
      then have "flowKeeps s (streamRound w fc rest v' s')"
        using Cons.IH [where v = v' and s = s'] by (rule flowKeeps_trans)
      then show ?thesis using Inr Next by simp
    next
      case (Return r s')
      with step show ?thesis using Inr by (simp add: tick_def)
    next
      case (Throw e s')
      then show ?thesis using Inr by simp
    qed
  qed
qed

lemma announce_rounds:
  "toolRounds (announce calls s) = toolRounds s \<and> maxToolRounds (announce calls s) = maxToolRounds s"
proof -
  have "toolRounds (foldl (\<lambda>a tc. emit True (ToolStartChunk (fn_name tc)) a) s calls) = toolRounds s
    \<and> maxToolRounds (foldl (\<lambda>a tc. emit True (ToolStartChunk (fn_name tc)) a) s calls) = maxToolRounds s"
    by (induction calls arbitrary: s) (simp_all add: emit_rounds)
  then show ?thesis by (simp add: announce_def)
qed

lemma afterStream_rounds:
  "maxToolRounds (snd (afterStream w v s)) = maxToolRounds s
   \<and> toolRounds (snd (afterStream w v s)) \<le> toolRounds s + 1"
  by (simp add: afterStream_def nextRound_def handleToolCalls_rounds announce_rounds
      split: option.splits)

lemma finalStream_rounds:
  "toolRounds (snd (snd (finalStream w chunks fc s))) = toolRounds s"
proof (induction chunks arbitrary: fc s)
  case Nil
  then show ?case by (simp add: tick_def)
next
  case (Cons item rest)
  then show ?case
    by (cases item)
       (simp_all add: Let_def tick_def emitDone_rounds emit_rounds addUsage_rounds logEv_def)
qed

lemma streamFinale_rounds:
  "fst (streamFinale w fc s) = Inr r \<Longrightarrow> res_toolRounds r = toolRounds s"
  by (auto simp: streamFinale_def Let_def resultOf_def emitDone_rounds finalStream_rounds
      logEv_def pushMessage_def split: if_splits option.splits)

lemma executeStreamLoop_rounds:
  "toolRounds s \<le> max 0 \<lceil>maxToolRounds s\<rceil> \<Longrightarrow>
   executeStreamLoop fuel w tools fc s = Some (Inr r, s') \<Longrightarrow>
   res_toolRounds r \<le> max 0 \<lceil>maxToolRounds s\<rceil>"
proof (induction fuel arbitrary: s)
  case 0
  show ?case
  proof (cases "of_int (toolRounds s) < maxToolRounds s")
    case False
    then have "fst (streamFinale w fc s) = Inr r"
      using "0.prems"(2) by (simp add: executeStreamLoop.simps [of 0 w tools fc s])
    then show ?thesis using "0.prems"(1) by (simp add: streamFinale_rounds)
  next
    case True
    then show ?thesis
      using "0.prems"
      by (auto simp: executeStreamLoop.simps [of 0 w tools fc s] resultOf_def emitDone_rounds
          logEv_def split: if_splits)
  qed
next
  case (Suc fuel)
  show ?case
  proof (cases "of_int (toolRounds s) < maxToolRounds s")
    case False
    then have "fst (streamFinale w fc s) = Inr r"
      using Suc.prems(2) by (simp add: executeStreamLoop.simps [of "Suc fuel" w tools fc s])
    then show ?thesis using Suc.prems(1) by (simp add: streamFinale_rounds)
  next
    case budget: True
    show ?thesis
    proof (cases "isAborted w s")
      case True
      then show ?thesis
        using Suc.prems budget
        by (auto simp: executeStreamLoop.simps [of "Suc fuel" w tools fc s] resultOf_def
            emitDone_rounds logEv_def)
    next
      case live: False
      let ?s0 = "logEv (ModelCall (clock s) (messages s) True) s"
      let ?f = "streamRound w fc (chatStream w (clock s) (messages s)) freshRound ?s0"
      have keeps: "flowKeeps ?s0 ?f" by (rule streamRound_keeps)
      have s0: "toolRounds ?s0 = toolRounds s" "maxToolRounds ?s0 = maxToolRounds s"
        by (simp_all add: logEv_def)
      show ?thesis
      proof (cases ?f)
        case (Return r0 s0')
        then have "r = r0"
          using Suc.prems(2) budget live
          by (simp add: executeStreamLoop.simps [of "Suc fuel" w tools fc s])
        then show ?thesis using keeps Return s0 Suc.prems(1) by simp
      next
        case (Throw e s0')
        then show ?thesis
          using Suc.prems(2) budget live
          by (simp add: executeStreamLoop.simps [of "Suc fuel" w tools fc s])
      next
        case (Next v s1)
        then have s1: "toolRounds s1 = toolRounds s" "maxToolRounds s1 = maxToolRounds s"
          using keeps s0 by simp_all
        let ?s2 = "snd (afterStream w v s1)"
        have s2: "maxToolRounds ?s2 = maxToolRounds s" "toolRounds ?s2 \<le> toolRounds s + 1"
          using afterStream_rounds [of w v s1] s1 by simp_all
        show ?thesis
        proof (cases "fst (afterStream w v s1)")
          case (Some e)
          then show ?thesis
            using Suc.prems(2) budget live Next
            by (simp add: executeStreamLoop.simps [of "Suc fuel" w tools fc s])
        next
          case None
          then have run: "executeStreamLoop fuel w tools fc ?s2 = Some (Inr r, s')"
            using Suc.prems(2) budget live Next
            by (simp add: executeStreamLoop.simps [of "Suc fuel" w tools fc s])
          have "toolRounds s < \<lceil>maxToolRounds s\<rceil>"
            using budget by (simp add: less_ceiling_iff)
          then have "toolRounds ?s2 \<le> max 0 \<lceil>maxToolRounds ?s2\<rceil>" using s2 by simp
          then have "res_toolRounds r \<le> max 0 \<lceil>maxToolRounds ?s2\<rceil>"
            using run by (rule Suc.IH)
          then show ?thesis using s2 by simp
        qed
      qed
    qed
  qed
qed

lemma executeStream_rounds:
  "executeStream fuel w um s = Some (Inr r, s') \<Longrightarrow> res_toolRounds r \<le> max 0 \<lceil>maxToolRounds s\<rceil>"
proof -
  assume run: "executeStream fuel w um s = Some (Inr r, s')"
  show ?thesis
  proof (cases "isAborted w s")
    case True
    then show ?thesis using run by (auto simp: executeStream_def)
  next
    case False
    let ?p = "snd (prepare w um True (startTranscript w um s))"
    have p: "toolRounds ?p = 0" "maxToolRounds ?p = maxToolRounds s"
      by (simp_all add: prepare_rounds startTranscript_def)
    have "executeStreamLoop fuel w (fst (prepare w um True (startTranscript w um s))) [] ?p
          = Some (Inr r, s')"
      using run False by (simp add: executeStream_def Let_def)
    then have "res_toolRounds r \<le> max 0 \<lceil>maxToolRounds ?p\<rceil>"
      using p by (intro executeStreamLoop_rounds) simp_all
    then show ?thesis using p by simp
  qed
qed






lemma within_integer_budget:
  assumes "n \<le> max 0 \<lceil>b\<rceil>" and "0 \<le> b" and "b \<in> \<int>"
  shows "of_int n \<le> (b :: rat)"
proof -
  from assms(3) obtain k where k: "b = of_int k" by (auto elim: Ints_cases)
  with assms(2) have "0 \<le> k" by simp
  with assms(1) k have "n \<le> k" by simp
  then show ?thesis using k by simp
qed





section \<open>What the code guarantees\<close>

text \<open>
  Claim C1 says that \<^verbatim>\<open>toolRounds\<close> of the result never exceeds the configured budget.
  The budget is a number the caller configures (\<^verbatim>\<open>maxToolRounds?: number\<close>), and nothing
  checks it. With a budget of \<open>-1\<close> the loop is skipped and the result reports 0 rounds,
  which is more than the budget. With a budget of \<open>2.5\<close> the test
  \<^verbatim>\<open>toolRounds < maxToolRounds\<close> of line 621 still holds after two rounds, and the result
  reports 3 rounds.
\<close>

theorem rounds_exceed_a_negative_or_fractional_budget:
  "fst (execute (replyingWorld ''ok'') ''hi'' (newAgent (Some (- 1)) []))
   = Inr \<lparr>res_content = ''ok'', res_toolsUsed = [], res_toolRounds = 0,
          res_totalUsage = usage15\<rparr>
   \<and> maxToolRounds (newAgent (Some (- 1)) []) = - 1
   \<and> \<not> of_int (res_toolRounds \<lparr>res_content = ''ok'', res_toolsUsed = [], res_toolRounds = 0,
                                  res_totalUsage = usage15\<rparr>)
         \<le> maxToolRounds (newAgent (Some (- 1)) [])
   \<and> fst (execute toolHungryWorld ''hi'' (newAgent (Some (5 / 2)) []))
     = Inr \<lparr>res_content = [],
            res_toolsUsed = [''get_recent_messages'', ''get_recent_messages'',
                             ''get_recent_messages''],
            res_toolRounds = 3,
            res_totalUsage = \<lparr>promptTokens = 40, completionTokens = 20, totalTokens = 60\<rparr>\<rparr>
   \<and> maxToolRounds (newAgent (Some (5 / 2)) []) = 5 / 2
   \<and> \<not> of_int (res_toolRounds
                  \<lparr>res_content = [],
                   res_toolsUsed = [''get_recent_messages'', ''get_recent_messages'',
                                    ''get_recent_messages''],
                   res_toolRounds = 3,
                   res_totalUsage = \<lparr>promptTokens = 40, completionTokens = 20,
                                      totalTokens = 60\<rparr>\<rparr>)
         \<le> maxToolRounds (newAgent (Some (5 / 2)) [])"
  by code_simp

text \<open>
  Claim C1 as amended: whenever \<^verbatim>\<open>execute\<close> or \<^verbatim>\<open>executeStream\<close> returns a result, its
  \<^verbatim>\<open>toolRounds\<close> is at most the larger of 0 and the configured budget rounded up to the
  next integer; so it never exceeds a budget that is an integer and not negative. The
  budget is any finite number.
\<close>

theorem rounds_within_ceiling_of_budget:
  "(fst (execute w um s) = Inr r \<longrightarrow>
      res_toolRounds r \<le> max 0 \<lceil>maxToolRounds s\<rceil>
      \<and> (0 \<le> maxToolRounds s \<and> maxToolRounds s \<in> \<int> \<longrightarrow>
           of_int (res_toolRounds r) \<le> maxToolRounds s))
   \<and> (executeStream fuel w um s = Some (Inr r', s') \<longrightarrow>
        res_toolRounds r' \<le> max 0 \<lceil>maxToolRounds s\<rceil>
        \<and> (0 \<le> maxToolRounds s \<and> maxToolRounds s \<in> \<int> \<longrightarrow>
             of_int (res_toolRounds r') \<le> maxToolRounds s))"
  using execute_rounds executeStream_rounds within_integer_budget by blast

theorem rounds_within_ceiling_of_budget_witness:
  "fst (execute toolHungryWorld ''hi'' (newAgent (Some 2) []))
   = Inr \<lparr>res_content = [], res_toolsUsed = [''get_recent_messages'', ''get_recent_messages''],
          res_toolRounds = 2,
          res_totalUsage = \<lparr>promptTokens = 30, completionTokens = 15, totalTokens = 45\<rparr>\<rparr>
   \<and> map_option fst (executeStream 2 toolHungryWorld ''hi'' (newAgent (Some 2) []))
     = Some (Inr \<lparr>res_content = [],
                   res_toolsUsed = [''get_recent_messages'', ''get_recent_messages''],
                   res_toolRounds = 2,
                   res_totalUsage = \<lparr>promptTokens = 30, completionTokens = 15,
                                      totalTokens = 45\<rparr>\<rparr>)
   \<and> (0 :: rat) \<le> maxToolRounds (newAgent (Some 2) [])
   \<and> maxToolRounds (newAgent (Some 2) []) \<in> \<int>
   \<and> of_int 2 \<le> maxToolRounds (newAgent (Some 2) [])
   \<and> (2 :: int) \<le> max 0 \<lceil>maxToolRounds (newAgent (Some 2) [])\<rceil>"
proof -
  let ?r = "\<lparr>res_content = [], res_toolsUsed = [''get_recent_messages'', ''get_recent_messages''],
             res_toolRounds = 2,
             res_totalUsage = \<lparr>promptTokens = 30, completionTokens = 15, totalTokens = 45\<rparr>\<rparr>"
  have blocking: "fst (execute toolHungryWorld ''hi'' (newAgent (Some 2) [])) = Inr ?r"
    by code_simp
  have streaming: "map_option fst (executeStream 2 toolHungryWorld ''hi'' (newAgent (Some 2) []))
                   = Some (Inr ?r)"
    by code_simp
  then obtain s' where
    stream: "executeStream 2 toolHungryWorld ''hi'' (newAgent (Some 2) []) = Some (Inr ?r, s')"
    by (cases "executeStream 2 toolHungryWorld ''hi'' (newAgent (Some 2) [])") auto
  have budget: "(0 :: rat) \<le> maxToolRounds (newAgent (Some 2) [])"
    "maxToolRounds (newAgent (Some 2) []) \<in> \<int>"
    by (simp_all add: newAgent_def)
  note inst = rounds_within_ceiling_of_budget
      [of toolHungryWorld "''hi''" "newAgent (Some 2) []" ?r 2 ?r s']
  have "res_toolRounds ?r \<le> max 0 \<lceil>maxToolRounds (newAgent (Some 2) [])\<rceil>"
    "of_int (res_toolRounds ?r) \<le> maxToolRounds (newAgent (Some 2) [])"
    using inst blocking stream budget by blast+
  then show ?thesis using blocking streaming budget by simp
qed

text \<open>
  Claim C6: whenever the pipeline runs and its forced call succeeds with a non-empty
  (truthy) result, the system-role evidence message stands immediately before the most
  recent user message of the transcript, and the assistant and tool messages of the
  forced call stay at the tail. Here \<open>u\<close> is the last user message of the transcript the
  pipeline starts from: no message behind it has the role \<open>User\<close>.
\<close>

theorem evidence_inserted_before_last_user:
  assumes emb: "getEmbeddingModel w (clock s) \<noteq> None" and cat: "semanticTool \<in> set tools"
    and res: "forcedResult w um s = Some r" and ok: "success r" "truthy (result r)"
    and tr: "messages s = pre @ u # post" "role u = User" "\<forall>m\<in>set post. role m \<noteq> User"
  shows "fst (runSemanticPipeline w um tools st s)
    \<and> messages (snd (runSemanticPipeline w um tools st s))
        = pre @ systemMessage (evidenceBlock w (fst (rewriteQuery w um s)) (result r)) # u # post
            @ [assistantMessage [pipelineCall w um s],
               forcedToolMessage w (Some r) (pipelineCall w um s)]"
proof -
  let ?a = "assistantMessage [pipelineCall w um s]"
  let ?t = "forcedToolMessage w (Some r) (pipelineCall w um s)"
  let ?ev = "systemMessage (evidenceBlock w (fst (rewriteQuery w um s)) (result r))"
  have tail: "\<forall>m\<in>set (post @ [?a, ?t]). role m \<noteq> User"
    using tr(3) pipeline_tail_roles by auto
  have "insertBeforeLastUser ?ev (pre @ u # (post @ [?a, ?t])) = pre @ ?ev # u # (post @ [?a, ?t])"
    using tr(2) tail by (rule insertBeforeLastUser_hit)
  then show ?thesis
    using pipeline_ran [OF emb cat, of um st] res ok tr(1) by simp
qed

theorem evidence_inserted_before_last_user_witness:
  "map role
     (messages (snd (runSemanticPipeline semanticWorld ''hi'' [semanticTool] False
                       (tick (startTranscript semanticWorld ''hi'' (newAgent None earlierTurn))))))
   = [System, User, Assistant, System, User, Assistant, Tool]"
proof -
  let ?s = "tick (startTranscript semanticWorld ''hi'' (newAgent None earlierTurn))"
  let ?r = "\<lparr>success = True, result = JObj [], error = []\<rparr>"
  have emb: "getEmbeddingModel semanticWorld (clock ?s) \<noteq> None" by code_simp
  have cat: "semanticTool \<in> set [semanticTool]" by simp
  have res: "forcedResult semanticWorld ''hi'' ?s = Some ?r" by code_simp
  have ok: "success ?r" "truthy (result ?r)" by simp_all
  have tr: "messages ?s = (systemMessage (systemPrompt semanticWorld) # earlierTurn) @ userMessageOf ''hi'' # []"
    by code_simp
  have u: "role (userMessageOf ''hi'') = User" by (simp add: userMessageOf_def)
  have post: "\<forall>m\<in>set []. role m \<noteq> User" by simp
  show ?thesis
    using evidence_inserted_before_last_user [OF emb cat res ok tr u post, of False]
    by (simp add: systemMessage_def userMessageOf_def assistantMessage_def forcedToolMessage_def
        toolMessage_def earlierTurn_def)
qed

text \<open>
  Claim C8 says that the result of the extractor tells a text without tool-call blocks
  from a text whose blocks all fail to parse. It does not: \<^verbatim>\<open>parseToolCallTags\<close> returns
  \<^verbatim>\<open>null\<close> in both cases (line 60), for every parser, time and pair of texts.
\<close>

theorem extractor_does_not_tell_no_markup_from_garbage:
  "toolCallBlocks ''Just an answer.'' = []
   \<and> toolCallBlocks ''<tool_call>not json</tool_call>'' = [''not json'']
   \<and> parseToolCallTags quietWorld 0 ''Just an answer.'' = None
   \<and> parseToolCallTags quietWorld 0 ''<tool_call>not json</tool_call>'' = None
   \<and> \<not> (\<exists>w t s1 s2.
          toolCallBlocks s1 = [] \<and> toolCallBlocks s2 \<noteq> []
          \<and> (\<forall>b\<in>set (toolCallBlocks s2). toolCallOfBlock w b = None)
          \<and> parseToolCallTags w t s1 \<noteq> parseToolCallTags w t s2)"
proof -
  have "toolCallBlocks ''Just an answer.'' = []" by code_simp
  moreover have "toolCallBlocks ''<tool_call>not json</tool_call>'' = [''not json'']" by code_simp
  moreover have "parseToolCallTags quietWorld 0 ''Just an answer.'' = None" by code_simp
  moreover have "parseToolCallTags quietWorld 0 ''<tool_call>not json</tool_call>'' = None"
    by code_simp
  moreover have "\<not> (\<exists>w t s1 s2.
          toolCallBlocks s1 = [] \<and> toolCallBlocks s2 \<noteq> []
          \<and> (\<forall>b\<in>set (toolCallBlocks s2). toolCallOfBlock w b = None)
          \<and> parseToolCallTags w t s1 \<noteq> parseToolCallTags w t s2)"
  proof
    assume "\<exists>w t s1 s2.
          toolCallBlocks s1 = [] \<and> toolCallBlocks s2 \<noteq> []
          \<and> (\<forall>b\<in>set (toolCallBlocks s2). toolCallOfBlock w b = None)
          \<and> parseToolCallTags w t s1 \<noteq> parseToolCallTags w t s2"
    then obtain w t s1 s2 where none: "toolCallBlocks s1 = []"
        and garbage: "\<forall>b\<in>set (toolCallBlocks s2). toolCallOfBlock w b = None"
        and differ: "parseToolCallTags w t s1 \<noteq> parseToolCallTags w t s2"
      by blast
    from none have "parseToolCallTags w t s1 = None" by (simp add: parse_None_iff)
    moreover from garbage have "parseToolCallTags w t s2 = None" by (simp add: parse_None_iff)
    ultimately show False using differ by simp
  qed
  ultimately show ?thesis by blast
qed

text \<open>
  Claim C8 as amended: the extractor returns \<^verbatim>\<open>null\<close> exactly when no block of the text
  yields a valid call, whether there are blocks or not; the orchestrator tells the two
  cases apart with \<^verbatim>\<open>hasToolCallTags\<close>, which holds of every text that has a block.
\<close>

theorem extractor_result_is_null_without_a_valid_call:
  "(parseToolCallTags w t s = None) = (\<forall>b\<in>set (toolCallBlocks s). toolCallOfBlock w b = None)
   \<and> (toolCallBlocks s \<noteq> [] \<longrightarrow> hasToolCallTags s)"
  using parse_None_iff blocks_have_marker by blast

theorem extractor_result_is_null_without_a_valid_call_witness:
  "toolCallBlocks ''<tool_call>not json</tool_call>'' = [''not json'']
   \<and> hasToolCallTags ''<tool_call>not json</tool_call>''
   \<and> parseToolCallTags quietWorld 0 ''<tool_call>not json</tool_call>'' = None"
proof -
  have b: "toolCallBlocks ''<tool_call>not json</tool_call>'' = [''not json'']" by code_simp
  have n: "\<forall>b\<in>set [''not json'']. toolCallOfBlock quietWorld b = None" by code_simp
  show ?thesis
    using extractor_result_is_null_without_a_valid_call
      [of quietWorld 0 "''<tool_call>not json</tool_call>''"] b n
    by simp
qed







section \<open>Where the code departs from the specification\<close>

text \<open>
  Claim C2: the usage total returned equals the sum of the usage records of every model
  call of the execution. In \<^verbatim>\<open>executeStream\<close> a delta that arrives while a thinking span
  is open takes the \<^verbatim>\<open>continue\<close> of line 773, which skips the usage of that delta (and
  its completion flag). In \<open>truncatedThinkWorld\<close> two model calls are issued, at times 1
  and 4; each stream carries the usage record (10, 5, 15); the total returned is
  (10, 5, 15), not (20, 10, 30).
\<close>

theorem stream_usage_skipped_while_thinking:
  "map_option (\<lambda>r. (fst r, modelCallTimes (trace (snd r))))
     (executeStream 2 truncatedThinkWorld ''hi'' (newAgent None []))
   = Some (Inr \<lparr>res_content = ''ok'', res_toolsUsed = [], res_toolRounds = 0,
                 res_totalUsage = \<lparr>promptTokens = 10, completionTokens = 5, totalTokens = 15\<rparr>\<rparr>,
           [1, 4])
   \<and> streamUsages (chatStream truncatedThinkWorld 1 [])
     = [\<lparr>promptTokens = 10, completionTokens = 5, totalTokens = 15\<rparr>]
   \<and> streamUsages (chatStream truncatedThinkWorld 4 [])
     = [\<lparr>promptTokens = 10, completionTokens = 5, totalTokens = 15\<rparr>]"
  by code_simp

text \<open>
  Claim C3: the forwarded content chunks, concatenated, are the buffer without its
  thinking and tool-call spans, each character forwarded at most once. Once a thinking
  span is complete, every later delta finds both markers in the buffer again: line 756
  re-enters the thinking state and line 770 moves \<^verbatim>\<open>displayedContent\<close> back to the end
  of the span, so all the text behind the span is forwarded again. For the deltas
  \<^verbatim>\<open><think>a</think>\<close>, \<^verbatim>\<open>b\<close>, \<^verbatim>\<open>c\<close> the consumer receives \<^verbatim>\<open>b\<close> and then \<^verbatim>\<open>bc\<close>,
  while the buffer without the span, and the content returned, is \<^verbatim>\<open>bc\<close>.
\<close>

theorem stream_forwards_text_twice_after_thinking:
  "map_option (\<lambda>r. (fst r, forwarded (trace (snd r))))
     (executeStream 1 thinkThenAnswerWorld ''hi'' (newAgent None []))
   = Some (Inr \<lparr>res_content = ''bc'', res_toolsUsed = [], res_toolRounds = 0,
                 res_totalUsage = usage15\<rparr>,
           [''b'', ''bc''])"
  by code_simp

text \<open>
  Claim C4: in \<^verbatim>\<open>execute\<close>, a reply without tool calls and without tool-call markup is
  returned with its thinking spans stripped. Line 659 returns \<^verbatim>\<open>response.content\<close> as it
  is; only \<^verbatim>\<open>executeStream\<close> (line 826) strips the span. For the reply of the scenario
  \<^verbatim>\<open>execute\<close> returns the whole text, \<^verbatim>\<open>executeStream\<close> returns \<^verbatim>\<open>Here is the answer.\<close>
\<close>

theorem execute_keeps_thinking_span:
  "fst (execute (replyingWorld ''<think>reasoning</think>Here is the answer.'') ''hi''
          (newAgent None []))
   = Inr \<lparr>res_content = ''<think>reasoning</think>Here is the answer.'', res_toolsUsed = [],
          res_toolRounds = 0, res_totalUsage = usage15\<rparr>
   \<and> map_option fst
         (executeStream 1 (replyingWorld ''<think>reasoning</think>Here is the answer.'') ''hi''
            (newAgent None []))
     = Some (Inr \<lparr>res_content = ''Here is the answer.'', res_toolsUsed = [],
                   res_toolRounds = 0, res_totalUsage = usage15\<rparr>)"
  by code_simp

text \<open>
  Claim C5: the usage total is zeroed at the start of every invocation, so the second
  of two consecutive calls of \<^verbatim>\<open>execute\<close> on one agent reports the model calls of the
  second execution only. Lines 600 to 606 set the transcript, \<^verbatim>\<open>toolsUsed\<close> and
  \<^verbatim>\<open>toolRounds\<close> anew, and leave \<^verbatim>\<open>totalUsage\<close> as it is. Each execution below issues
  one model call with the usage (10, 5, 15); the second one reports (20, 10, 30).
\<close>

theorem usage_not_reset_between_executions:
  "fst (execute (replyingWorld ''ok'') ''again''
          (snd (execute (replyingWorld ''ok'') ''hi'' (newAgent None []))))
   = Inr \<lparr>res_content = ''ok'', res_toolsUsed = [], res_toolRounds = 0,
          res_totalUsage = \<lparr>promptTokens = 20, completionTokens = 10, totalTokens = 30\<rparr>\<rparr>
   \<and> modelCallTimes (trace (snd (execute (replyingWorld ''ok'') ''hi'' (newAgent None [])))) = [1]
   \<and> modelCallTimes
        (trace (snd (execute (replyingWorld ''ok'') ''again''
                       (snd (execute (replyingWorld ''ok'') ''hi'' (newAgent None []))))))
     = [1, 3]"
  by code_simp

text \<open>
  Claim C7: once cancellation is observed at a suspension point, before a model call
  among them, no further model or tool call is issued, also on the path that ends with
  the forced last model call. \<^verbatim>\<open>execute\<close> does not look at the signal between the last
  round and the forced call of line 674. With a budget of one round and the signal
  raised while the tools of that round run (it is raised when 3 suspension points have
  passed), \<^verbatim>\<open>execute\<close> issues the forced call at time 3 and returns its answer.
  \<^verbatim>\<open>executeStream\<close> has the check (line 870): with the signal raised while the tools run
  (when 4 suspension points have passed) it returns with no further model call.
\<close>

theorem execute_forced_call_after_cancellation:
  "abortAt (cancelledWorld 3) = Some 3
   \<and> (\<lambda>r. (fst r, modelCallTimes (trace (snd r)), toolDispatchTimes (trace (snd r))))
        (execute (cancelledWorld 3) ''hi'' (newAgent (Some 1) []))
     = (Inr \<lparr>res_content = ''late answer'', res_toolsUsed = [''get_recent_messages''],
             res_toolRounds = 1,
             res_totalUsage = \<lparr>promptTokens = 20, completionTokens = 10, totalTokens = 30\<rparr>\<rparr>,
        [1, 3], [2])
   \<and> map_option (\<lambda>r. (fst r, modelCallTimes (trace (snd r)), toolDispatchTimes (trace (snd r))))
        (executeStream 2 (cancelledWorld 4) ''hi'' (newAgent (Some 1) []))
     = Some (Inr \<lparr>res_content = [], res_toolsUsed = [''get_recent_messages''],
                   res_toolRounds = 1, res_totalUsage = usage15\<rparr>,
             [1], [3])"
  by code_simp


end
